theory Spec2Isabelle
  imports Main "HOL-Library.Word"
begin

unbundle bit_operations_syntax

section \<open>The downloader of gitmoo-goog: a shallow embedding of downloader.go\<close>

text \<open>
  The package keeps two globals: \<open>Options\<close>, which the run only reads, and \<open>stats\<close>,
  which it updates. Every function below takes \<open>Options\<close> as an argument and threads a
  \<open>world\<close> that holds \<open>stats\<close>, the regular files on disk, the number of HTTP response
  bodies still open and the trace of every call that leaves the process (log lines,
  sleeps, listing calls, HTTP requests, file system calls).

  Code outside the package is not in the repository. What the package only calls is
  a parameter of the model, collected in the record \<open>env\<close>: \<open>time.Parse\<close>, the MD5
  digest, \<open>mime.ExtensionsByType\<close>, \<open>MediaItem.MarshalJSON\<close>, \<open>http.Get\<close>, the
  listing call and the failures of the operating system. The last three are given the
  trace so far, so that they may answer differently each time they are called. Small
  pure library functions (\<open>strconv.Itoa\<close>, \<open>Month.String\<close>, \<open>hex.EncodeToString\<close>,
  \<open>filepath.Join\<close>, \<open>filepath.Dir\<close> on a Unix system) are written out.
\<close>

subsection \<open>Errors and panics\<close>

datatype errno = EACCES | EIO | EISDIR | ENOSPC | ENOTDIR | EROFS

text \<open>
  A Go \<open>error\<close> value. \<open>ErrNotExist\<close> is what \<open>os.IsNotExist\<close> recognises; \<open>ErrSys\<close> is any
  other failure of a system call; \<open>ErrMsg\<close> is an error of a library or of the remote
  service.
\<close>

datatype error = ErrNotExist | ErrSys errno | ErrMsg string

definition os_IsNotExist :: "error option \<Rightarrow> bool" where
  "os_IsNotExist err = (err = Some ErrNotExist)"

datatype panic = SliceBoundsOutOfRange

datatype 'a outcome = Panic panic | Ok 'a

subsection \<open>Data\<close>

text \<open>
  The fields keep the names of the source, apart from three that Isabelle has taken or
  that would appear twice: \<open>Id\<close> of an item is \<open>Id_item\<close>, \<open>total\<close> of the counters is
  \<open>total_cnt\<close>, and \<open>PageSize\<close> of the request is \<open>PageSize_req\<close>.
\<close>

datatype month =
  January | February | March | April | May | June |
  July | August | September | October | November | December

text \<open>The fields of a parsed \<open>time.Time\<close> that the package reads.\<close>

record Time =
  Year :: int
  Month :: month
  Day :: int

text \<open>
  \<open>photoslibrary.MediaMetadata\<close> and \<open>photoslibrary.MediaItem\<close>, with the fields the
  package reads. \<open>Video\<close> says whether the pointer \<open>MediaMetadata.Video\<close> is not nil.
  The items and their \<open>MediaMetadata\<close> are taken as the package takes them from the
  service, present: it reads through both pointers without a check.
\<close>

record media_metadata =
  CreationTime :: string
  Video :: bool

record media_item =
  Id_item :: string
  MimeType :: string
  BaseUrl :: string
  MediaMetadata :: media_metadata

record options =
  BackupFolder :: string
  MaxItems :: int
  PageSize :: int
  Throttle :: int
  AlbumID :: string

text \<open>
  The counters are Go \<open>int\<close>s, modelled as unbounded integers: each is only ever
  increased by one per item, so a 64-bit counter needs \<open>2^63\<close> items to wrap.
  \<open>totalsize\<close> is a \<open>uint64\<close> and wraps.
\<close>

record run_stats =
  total_cnt :: int
  errors :: int
  totalsize :: "64 word"
  downloaded :: int

record request =
  PageSize_req :: int
  AlbumId :: string
  PageToken :: string

record search_response =
  MediaItems :: "media_item list"
  NextPageToken :: string

text \<open>
  An HTTP response: the declared content length (\<open>-1\<close> when unknown), the bytes the
  body delivers, and the error that ends the body instead of end-of-file, if any.
\<close>

record response =
  ContentLength :: int
  Body :: string
  BodyErr :: "error option"

record FileInfo =
  Size :: int

datatype logline =
    LogError error
  | LogCreating string
  | LogAlreadyDownloaded
  | LogSizeChanged
  | LogStatError
  | LogNotYetDownloaded
  | LogDownloaded string nat
  | LogFailed string error
  | LogProgress int int int "64 word" int
  | LogSummary int int int "64 word"

datatype event =
    EvLog logline
  | EvSleep int
  | EvSearch request
  | EvGet string
  | EvBodyClose
  | EvStat string
  | EvMkdirAll string
  | EvWriteFile string
  | EvCreate string
  | EvCopy string

record world =
  files :: "string \<rightharpoonup> string"
  stats :: run_stats
  open_bodies :: nat
  trace :: "event list"

text \<open>
  The collaborators. \<open>fault h c\<close> says whether the system call \<open>c\<close>, made after the
  history \<open>h\<close>, fails for a reason other than a missing file (permissions, a directory
  in the way, a missing parent, an I/O error). \<open>write_limit h p\<close> is the number of bytes
  the file \<open>p\<close> accepts before a write to it fails, if it fails.
\<close>

record env =
  time_Parse :: "string \<Rightarrow> error + Time"
  md5_Sum :: "string \<Rightarrow> 128 word"
  ExtensionsByType :: "string \<Rightarrow> string list"
  MarshalJSON :: "media_item \<Rightarrow> error + string"
  http_Get :: "event list \<Rightarrow> string \<Rightarrow> error + response"
  Search :: "event list \<Rightarrow> request \<Rightarrow> error + search_response"
  fault :: "event list \<Rightarrow> event \<Rightarrow> errno option"
  write_limit :: "event list \<Rightarrow> string \<Rightarrow> (nat \<times> errno) option"

subsection \<open>Library functions written out\<close>

text \<open>\<open>strconv.Itoa\<close>, which is also what \<open>%v\<close> prints for an \<open>int\<close>.\<close>

definition digit_char :: "nat \<Rightarrow> char" where
  "digit_char k = ''0123456789'' ! (k mod 10)"

function decimal :: "nat \<Rightarrow> string" where
  "decimal n = (if n < 10 then [digit_char n] else decimal (n div 10) @ [digit_char n])"
  by pat_completeness auto
termination
  by (relation "measure (\<lambda>n. n)") auto

declare decimal.simps [simp del]

definition Itoa :: "int \<Rightarrow> string" where
  "Itoa i = (if i < 0 then CHR ''-'' # decimal (nat (- i)) else decimal (nat i))"

text \<open>\<open>time.Month.String\<close> on the twelve months.\<close>

fun Month_String :: "month \<Rightarrow> string" where
  "Month_String January = ''January''"
| "Month_String February = ''February''"
| "Month_String March = ''March''"
| "Month_String April = ''April''"
| "Month_String May = ''May''"
| "Month_String June = ''June''"
| "Month_String July = ''July''"
| "Month_String August = ''August''"
| "Month_String September = ''September''"
| "Month_String October = ''October''"
| "Month_String November = ''November''"
| "Month_String December = ''December''"

text \<open>
  The slice expression \<open>s[lo:hi]\<close> of Go on a string: it panics unless
  \<open>0 \<le> lo \<le> hi \<le> len(s)\<close>.
\<close>

definition go_slice :: "string \<Rightarrow> int \<Rightarrow> int \<Rightarrow> string option" where
  "go_slice s lo hi =
     (if 0 \<le> lo \<and> lo \<le> hi \<and> hi \<le> int (length s)
      then Some (take (nat (hi - lo)) (drop (nat lo) s))
      else None)"

text \<open>
  \<open>hex.EncodeToString\<close> of the sixteen bytes of an MD5 digest, most significant byte
  first: thirty-two lower-case hexadecimal digits.
\<close>

definition hex_digit :: "nat \<Rightarrow> char" where
  "hex_digit k = ''0123456789abcdef'' ! (k mod 16)"

definition hex_EncodeToString :: "128 word \<Rightarrow> string" where
  "hex_EncodeToString d = map (\<lambda>i. hex_digit (unat (drop_bit (4 * (31 - i)) d))) [0..<32]"

text \<open>
  \<open>filepath.Clean\<close>, \<open>filepath.Join\<close> and \<open>filepath.Dir\<close> where the separator is \<open>/\<close>
  and there are no volume names. \<open>Clean\<close> drops empty and \<open>.\<close> elements, cancels an
  inner \<open>..\<close> against the element before it, drops a \<open>..\<close> that begins a rooted path and
  turns the empty result into \<open>.\<close>.
\<close>

fun split_sep :: "string \<Rightarrow> string list" where
  "split_sep [] = [[]]"
| "split_sep (c # cs) =
     (if c = CHR ''/'' then [] # split_sep cs
      else (case split_sep cs of [] \<Rightarrow> [[c]] | x # xs \<Rightarrow> (c # x) # xs))"

fun join_sep :: "string list \<Rightarrow> string" where
  "join_sep [] = []"
| "join_sep [x] = x"
| "join_sep (x # y # ys) = x @ CHR ''/'' # join_sep (y # ys)"

fun clean_elems :: "bool \<Rightarrow> string list \<Rightarrow> string list \<Rightarrow> string list" where
  "clean_elems rooted out [] = rev out"
| "clean_elems rooted out (e # es) =
     (if e = [] \<or> e = ''.'' then clean_elems rooted out es
      else if e = ''..'' then
        (case out of
           [] \<Rightarrow> if rooted then clean_elems rooted [] es else clean_elems rooted [''..''] es
         | x # xs \<Rightarrow>
             if x = ''..'' then clean_elems rooted (''..'' # out) es
             else clean_elems rooted xs es)
      else clean_elems rooted (e # out) es)"

definition filepath_Clean :: "string \<Rightarrow> string" where
  "filepath_Clean path =
     (let rooted = (case path of [] \<Rightarrow> False | c # _ \<Rightarrow> c = CHR ''/'');
          body = join_sep (clean_elems rooted [] (split_sep path));
          r = (if rooted then CHR ''/'' # body else body)
      in if r = [] then ''.'' else r)"

definition filepath_Join :: "string list \<Rightarrow> string" where
  "filepath_Join elem =
     (case dropWhile (\<lambda>e. e = []) elem of
        [] \<Rightarrow> []
      | e # es \<Rightarrow> filepath_Clean (join_sep (e # es)))"

definition filepath_Dir :: "string \<Rightarrow> string" where
  "filepath_Dir path = filepath_Clean (rev (dropWhile (\<lambda>c. c \<noteq> CHR ''/'') (rev path)))"

subsection \<open>Calls that leave the process\<close>

definition emit :: "event \<Rightarrow> world \<Rightarrow> world" where
  "emit e w = w\<lparr>trace := trace w @ [e]\<rparr>"

definition log_Println :: "logline \<Rightarrow> world \<Rightarrow> world" where
  "log_Println l w = emit (EvLog l) w"

definition log_Printf :: "logline \<Rightarrow> world \<Rightarrow> world" where
  "log_Printf l w = emit (EvLog l) w"

definition time_Sleep :: "int \<Rightarrow> world \<Rightarrow> world" where
  "time_Sleep d w = emit (EvSleep d) w"

text \<open>
  \<open>os.Stat\<close>: a file info for a regular file of the model, \<open>ErrNotExist\<close> for a path
  that holds none, and any other error when the environment says so.
\<close>

definition os_Stat :: "env \<Rightarrow> string \<Rightarrow> world \<Rightarrow> (error + FileInfo) \<times> world" where
  "os_Stat env name w =
     (let w1 = emit (EvStat name) w
      in case fault env (trace w) (EvStat name) of
           Some e \<Rightarrow> (Inl (ErrSys e), w1)
         | None \<Rightarrow>
             (case files w name of
                None \<Rightarrow> (Inl ErrNotExist, w1)
              | Some content \<Rightarrow> (Inr \<lparr>Size = int (length content)\<rparr>, w1)))"

definition os_MkdirAll :: "env \<Rightarrow> string \<Rightarrow> world \<Rightarrow> error option \<times> world" where
  "os_MkdirAll env path w =
     (let w1 = emit (EvMkdirAll path) w
      in case fault env (trace w) (EvMkdirAll path) of
           Some e \<Rightarrow> (Some (ErrSys e), w1)
         | None \<Rightarrow> (None, w1))"

text \<open>
  \<open>ioutil.WriteFile\<close> opens the file truncated, writes the data and closes it: a
  failure to open leaves the file as it was, a failed write leaves the bytes written
  before the failure.
\<close>

definition ioutil_WriteFile ::
  "env \<Rightarrow> string \<Rightarrow> string \<Rightarrow> world \<Rightarrow> error option \<times> world" where
  "ioutil_WriteFile env name data w =
     (let w1 = emit (EvWriteFile name) w
      in case fault env (trace w) (EvWriteFile name) of
           Some e \<Rightarrow> (Some (ErrSys e), w1)
         | None \<Rightarrow>
             (case write_limit env (trace w) name of
                None \<Rightarrow> (None, w1\<lparr>files := (files w1)(name \<mapsto> data)\<rparr>)
              | Some (k, e) \<Rightarrow>
                  if k < length data
                  then (Some (ErrSys e), w1\<lparr>files := (files w1)(name \<mapsto> take k data)\<rparr>)
                  else (None, w1\<lparr>files := (files w1)(name \<mapsto> data)\<rparr>)))"

text \<open>\<open>os.Create\<close> truncates the file when it exists and creates it empty otherwise.\<close>

definition os_Create :: "env \<Rightarrow> string \<Rightarrow> world \<Rightarrow> error option \<times> world" where
  "os_Create env name w =
     (let w1 = emit (EvCreate name) w
      in case fault env (trace w) (EvCreate name) of
           Some e \<Rightarrow> (Some (ErrSys e), w1)
         | None \<Rightarrow> (None, w1\<lparr>files := (files w1)(name \<mapsto> [])\<rparr>))"

text \<open>
  \<open>io.Copy\<close> from the response body to the open file \<open>name\<close>: the bytes written are
  appended to the file; the copy fails when a write fails or when the body ends with
  an error. It returns the number of bytes written.
\<close>

definition io_Copy ::
  "env \<Rightarrow> string \<Rightarrow> response \<Rightarrow> world \<Rightarrow> (nat \<times> error option) \<times> world" where
  "io_Copy env name resp w =
     (let w1 = emit (EvCopy name) w;
          data = Body resp;
          old = (case files w name of None \<Rightarrow> [] | Some content \<Rightarrow> content)
      in case write_limit env (trace w) name of
           None \<Rightarrow> ((length data, BodyErr resp), w1\<lparr>files := (files w1)(name \<mapsto> old @ data)\<rparr>)
         | Some (k, e) \<Rightarrow>
             if k < length data
             then ((k, Some (ErrSys e)), w1\<lparr>files := (files w1)(name \<mapsto> old @ take k data)\<rparr>)
             else ((length data, BodyErr resp),
                   w1\<lparr>files := (files w1)(name \<mapsto> old @ data)\<rparr>))"

text \<open>\<open>http.Get\<close>: a response comes with an open body.\<close>

definition http_Get_call :: "env \<Rightarrow> string \<Rightarrow> world \<Rightarrow> (error + response) \<times> world" where
  "http_Get_call env url w =
     (let w1 = emit (EvGet url) w
      in case http_Get env (trace w) url of
           Inl err \<Rightarrow> (Inl err, w1)
         | Inr resp \<Rightarrow> (Inr resp, w1\<lparr>open_bodies := open_bodies w1 + 1\<rparr>))"

definition Body_Close :: "world \<Rightarrow> world" where
  "Body_Close w = (emit EvBodyClose w)\<lparr>open_bodies := open_bodies w - 1\<rparr>"

text \<open>\<open>svc.MediaItems.Search(req).Do()\<close>.\<close>

definition svc_Search ::
  "env \<Rightarrow> request \<Rightarrow> world \<Rightarrow> (error + search_response) \<times> world" where
  "svc_Search env req w = (Search env (trace w) req, emit (EvSearch req) w)"

subsection \<open>Naming\<close>

text \<open>
  \<open>getFileNameByTime\<close>: the only effect is the log line on a parse error.
\<close>

definition getFileNameByTime ::
  "env \<Rightarrow> options \<Rightarrow> media_item \<Rightarrow> world \<Rightarrow> (error + string) outcome \<times> world" where
  "getFileNameByTime env opts item w =
     (case time_Parse env (CreationTime (MediaMetadata item)) of
        Inl err \<Rightarrow> (Ok (Inl err), log_Println (LogError err) w)
      | Inr t \<Rightarrow>
          (let year = Itoa (Year t);
               month = Month_String (Month t)
           in case go_slice (Id_item item) (int (length (Id_item item)) - 8)
                     (int (length (Id_item item))) of
                None \<Rightarrow> (Panic SliceBoundsOutOfRange, w)
              | Some suffix \<Rightarrow>
                  (let name = Itoa (Day t) @ ''_'' @ suffix
                   in (Ok (Inr (filepath_Join [BackupFolder opts, year, month, name])), w))))"

definition getFileNameByHash :: "env \<Rightarrow> options \<Rightarrow> media_item \<Rightarrow> string outcome" where
  "getFileNameByHash env opts item =
     (let hash = hex_EncodeToString (md5_Sum env (Id_item item))
      in case go_slice hash 0 4 of
           None \<Rightarrow> Panic SliceBoundsOutOfRange
         | Some a \<Rightarrow>
             (case go_slice hash 4 8 of
                None \<Rightarrow> Panic SliceBoundsOutOfRange
              | Some b \<Rightarrow>
                  (case go_slice hash 8 (int (length hash)) of
                     None \<Rightarrow> Panic SliceBoundsOutOfRange
                   | Some c \<Rightarrow> Ok (filepath_Join [BackupFolder opts, a, b, c]))))"

definition getFileName ::
  "env \<Rightarrow> options \<Rightarrow> media_item \<Rightarrow> world \<Rightarrow> string outcome \<times> world" where
  "getFileName env opts item w =
     (case getFileNameByTime env opts item w of
        (Panic p, w1) \<Rightarrow> (Panic p, w1)
      | (Ok (Inr fileName), w1) \<Rightarrow> (Ok fileName, w1)
      | (Ok (Inl err), w1) \<Rightarrow>
          (case getFileNameByHash env opts item of
             Panic p \<Rightarrow> (Panic p, w1)
           | Ok fileName \<Rightarrow> (Ok fileName, w1)))"

subsection \<open>Persisting one item\<close>

definition createJSON ::
  "env \<Rightarrow> media_item \<Rightarrow> string \<Rightarrow> world \<Rightarrow> error option \<times> world" where
  "createJSON env item fileName w =
     (case os_Stat env fileName w of
        (r, w1) \<Rightarrow>
          (let err = (case r of Inl e \<Rightarrow> Some e | Inr _ \<Rightarrow> None)
           in if os_IsNotExist err then
                (let w2 = log_Printf (LogCreating fileName) w1
                 in case MarshalJSON env item of
                      Inl e \<Rightarrow> (Some e, w2)
                    | Inr bytes \<Rightarrow>
                        (case os_MkdirAll env (filepath_Dir fileName) w2 of
                           (Some e, w3) \<Rightarrow> (Some e, w3)
                         | (None, w3) \<Rightarrow> ioutil_WriteFile env fileName bytes w3))
              else (None, w1)))"

text \<open>
  Lines 117 to 135 of \<open>createImage\<close>, which both the branch of a changed size and the
  branch of a missing file reach. The two deferred calls run at the returns that
  follow their \<open>defer\<close> statements, the close of the body first; closing the output
  file changes nothing the model keeps.
\<close>

definition createImage_write ::
  "env \<Rightarrow> string \<Rightarrow> response \<Rightarrow> world \<Rightarrow> error option \<times> world" where
  "createImage_write env fileName resp w =
     (case os_Create env fileName w of
        (Some err, w1) \<Rightarrow> (Some err, w1)
      | (None, w1) \<Rightarrow>
          (case io_Copy env fileName resp w1 of
             ((n, Some err), w2) \<Rightarrow> (Some err, Body_Close w2)
           | ((n, None), w2) \<Rightarrow>
               (let w3 = log_Printf (LogDownloaded fileName n) w2;
                    w4 = w3\<lparr>stats := (stats w3)\<lparr>downloaded := downloaded (stats w3) + 1\<rparr>\<rparr>;
                    w5 = w4\<lparr>stats := (stats w4)
                            \<lparr>totalsize := totalsize (stats w4) + word_of_nat n\<rparr>\<rparr>
                in (None, Body_Close w5))))"

definition createImage ::
  "env \<Rightarrow> media_item \<Rightarrow> string \<Rightarrow> world \<Rightarrow> error option \<times> world" where
  "createImage env item fileName w =
     (let url = (if Video (MediaMetadata item) then BaseUrl item @ ''=dv''
                 else BaseUrl item @ ''=d'')
      in case http_Get_call env url w of
           (Inl err, w1) \<Rightarrow> (Some err, w1)
         | (Inr resp, w1) \<Rightarrow>
             (case os_Stat env fileName w1 of
                (Inr fileInfo, w2) \<Rightarrow>
                  if ContentLength resp = Size fileInfo
                  then (None, log_Println LogAlreadyDownloaded w2)
                  else createImage_write env fileName resp (log_Printf LogSizeChanged w2)
              | (Inl err, w2) \<Rightarrow>
                  if \<not> os_IsNotExist (Some err)
                  then (Some err, log_Println LogStatError w2)
                  else createImage_write env fileName resp
                         (log_Println LogNotYetDownloaded w2)))"

definition downloadItem ::
  "env \<Rightarrow> options \<Rightarrow> media_item \<Rightarrow> world \<Rightarrow> error option outcome \<times> world" where
  "downloadItem env opts item w =
     (case getFileName env opts item w of
        (Panic p, w1) \<Rightarrow> (Panic p, w1)
      | (Ok name, w1) \<Rightarrow>
          (let jsonName = name @ ''.json'';
               ext = ExtensionsByType env (MimeType item);
               imageName = (if length ext > 0 then name @ ext ! 0 else name)
           in case createJSON env item jsonName w1 of
                (Some err, w2) \<Rightarrow> (Ok (Some err), w2)
              | (None, w2) \<Rightarrow>
                  (case createImage env item imageName w2 of (err, w3) \<Rightarrow> (Ok err, w3))))"

subsection \<open>The run\<close>

text \<open>
  The \<open>for range\<close> loop over the items of one page. The result is the value of
  \<open>hasMore\<close> when the loop is left: false when the cap stopped it.
\<close>

fun processItems ::
  "env \<Rightarrow> options \<Rightarrow> media_item list \<Rightarrow> world \<Rightarrow> bool outcome \<times> world" where
  "processItems env opts [] w = (Ok True, w)"
| "processItems env opts (m # ms) w =
     (let w1 = w\<lparr>stats := (stats w)\<lparr>total_cnt := total_cnt (stats w) + 1\<rparr>\<rparr>
      in if total_cnt (stats w1) > MaxItems opts then (Ok False, w1)
         else (case downloadItem env opts m w1 of
                 (Panic p, w2) \<Rightarrow> (Panic p, w2)
               | (Ok None, w2) \<Rightarrow> processItems env opts ms w2
               | (Ok (Some err), w2) \<Rightarrow>
                   (let w3 = log_Printf (LogFailed (Id_item m) err) w2;
                        w4 = w3\<lparr>stats := (stats w3)\<lparr>errors := errors (stats w3) + 1\<rparr>\<rparr>
                    in processItems env opts ms w4)))"

datatype run = OutOfFuel | Crashed panic | Returned "error option"

text \<open>
  \<open>time.Second * time.Duration(Options.Throttle)\<close> is a product of 64-bit integers, in
  nanoseconds.
\<close>

definition sleepTime :: "options \<Rightarrow> int" where
  "sleepTime opts = sint (1000000000 * word_of_int (Throttle opts) :: 64 word)"

text \<open>
  The \<open>for hasMore\<close> loop. Nothing bounds the number of pages, so the model counts the
  iterations it may still make: a run that has used them up is \<open>OutOfFuel\<close>, with the
  world it has reached. \<open>fetchPage\<close> is lines 176 to 179 of each iteration: the progress
  line, the sleep, the listing call.
\<close>

definition fetchPage ::
  "env \<Rightarrow> options \<Rightarrow> request \<Rightarrow> world \<Rightarrow> (error + search_response) \<times> world" where
  "fetchPage env opts req w =
     (let w1 = log_Printf (LogProgress (total_cnt (stats w)) (downloaded (stats w))
                  (errors (stats w)) (totalsize (stats w)) (sleepTime opts)) w;
          w2 = time_Sleep (sleepTime opts) w1
      in svc_Search env req w2)"

fun pageLoop :: "nat \<Rightarrow> env \<Rightarrow> options \<Rightarrow> request \<Rightarrow> world \<Rightarrow> run \<times> world" where
  "pageLoop 0 env opts req w = (OutOfFuel, w)"
| "pageLoop (Suc fuel) env opts req w =
     (case fetchPage env opts req w of
           (Inl err, w3) \<Rightarrow> (Returned (Some err), w3)
         | (Inr items, w3) \<Rightarrow>
             (case processItems env opts (MediaItems items) w3 of
                (Panic p, w4) \<Rightarrow> (Crashed p, w4)
              | (Ok hasMore, w4) \<Rightarrow>
                  (let req1 = req\<lparr>PageToken := NextPageToken items\<rparr>;
                       hasMore1 = (if PageToken req1 = [] then False else hasMore)
                   in if hasMore1 then pageLoop fuel env opts req1 w4
                      else (Returned None, w4))))"

text \<open>Lines 170 to 174: the counters at zero and the request for the first page.\<close>

definition zero_stats :: run_stats where
  "zero_stats = \<lparr>total_cnt = 0, errors = 0, totalsize = 0, downloaded = 0\<rparr>"

definition first_request :: "options \<Rightarrow> request" where
  "first_request opts =
     \<lparr>PageSize_req = PageSize opts, AlbumId = AlbumID opts, PageToken = []\<rparr>"

definition DownloadAll :: "nat \<Rightarrow> env \<Rightarrow> options \<Rightarrow> world \<Rightarrow> run \<times> world" where
  "DownloadAll fuel env opts w =
     (let w0 = w\<lparr>stats := zero_stats\<rparr>;
          req = first_request opts
      in case pageLoop fuel env opts req w0 of
           (Returned None, w1) \<Rightarrow>
             (Returned None,
              log_Printf (LogSummary (total_cnt (stats w1)) (downloaded (stats w1))
                 (errors (stats w1)) (totalsize (stats w1))) w1)
         | (r, w1) \<Rightarrow> (r, w1))"

subsection \<open>The order of the calls of a run\<close>

text \<open>
  The driver as a machine over the trace: outside a page fetch (\<open>Idle\<close>) any event but
  a sleep or a listing call may happen; a progress line opens a page fetch (\<open>Logged\<close>),
  the sleep of the configured duration must come next (\<open>Slept\<close>) and the listing call
  next again. A summary line, outside a page fetch, closes the run (\<open>Done\<close>): no event
  may follow it.
\<close>

datatype phase = Idle | Logged | Slept | Done

fun phase_step :: "int \<Rightarrow> phase \<Rightarrow> event \<Rightarrow> phase option" where
  "phase_step d Idle (EvLog (LogProgress t n e s x)) = Some Logged"
| "phase_step d Idle (EvLog (LogSummary t n e s)) = Some Done"
| "phase_step d Idle (EvSleep x) = None"
| "phase_step d Idle (EvSearch r) = None"
| "phase_step d Idle ev = Some Idle"
| "phase_step d Logged (EvSleep x) = (if x = d then Some Slept else None)"
| "phase_step d Logged ev = None"
| "phase_step d Slept (EvSearch r) = Some Idle"
| "phase_step d Slept ev = None"
| "phase_step d Done ev = None"

fun phases :: "int \<Rightarrow> phase \<Rightarrow> event list \<Rightarrow> phase option" where
  "phases d p [] = Some p"
| "phases d p (ev # evs) =
     (case phase_step d p ev of None \<Rightarrow> None | Some q \<Rightarrow> phases d q evs)"

text \<open>
  \<open>throttled\<close>: the page fetches are in order and there is no summary line.
  \<open>run_ended\<close>: the page fetches are in order and one summary line is the last event.
\<close>

definition throttled :: "int \<Rightarrow> event list \<Rightarrow> bool" where
  "throttled d evs = (phases d Idle evs = Some Idle)"

definition run_ended :: "int \<Rightarrow> event list \<Rightarrow> bool" where
  "run_ended d evs = (phases d Idle evs = Some Done)"

fun is_summary :: "event \<Rightarrow> bool" where
  "is_summary (EvLog (LogSummary t n e s)) = True"
| "is_summary ev = False"

fun quiet :: "event \<Rightarrow> bool" where
  "quiet (EvLog (LogProgress t n e s x)) = False"
| "quiet (EvLog (LogSummary t n e s)) = False"
| "quiet (EvSleep x) = False"
| "quiet (EvSearch r) = False"
| "quiet ev = True"

fun is_search :: "event \<Rightarrow> bool" where
  "is_search (EvSearch r) = True"
| "is_search ev = False"

definition searches :: "world \<Rightarrow> nat" where
  "searches w = length (filter is_search (trace w))"

text \<open>The calls that fetch or write a payload.\<close>

fun payload_call :: "event \<Rightarrow> bool" where
  "payload_call (EvGet u) = True"
| "payload_call (EvCreate p) = True"
| "payload_call (EvCopy p) = True"
| "payload_call EvBodyClose = True"
| "payload_call ev = False"

text \<open>
  \<open>quiet_ext w w'\<close>: the trace of \<open>w'\<close> is the trace of \<open>w\<close> followed by events that are
  no part of a page fetch and no summary line.
\<close>

definition quiet_ext :: "world \<Rightarrow> world \<Rightarrow> bool" where
  "quiet_ext w w' =
     (take (length (trace w)) (trace w') = trace w
      \<and> list_all quiet (drop (length (trace w)) (trace w')))"

text \<open>
  What persisting an item may do besides writing files and counting the download: the
  counters \<open>total\<close> and \<open>errors\<close> stay, and the trace grows by events that are no part
  of a page fetch and no summary line.
\<close>

definition item_step :: "world \<Rightarrow> world \<Rightarrow> bool" where
  "item_step w w' =
     (quiet_ext w w' \<and> total_cnt (stats w') = total_cnt (stats w)
      \<and> errors (stats w') = errors (stats w))"

subsection \<open>The paths of the naming strategy, as the specification words them\<close>



definition path_by_hash :: "(string \<Rightarrow> 128 word) \<Rightarrow> string \<Rightarrow> string \<Rightarrow> string" where
  "path_by_hash digest root ident =
     (let hash = hex_EncodeToString (digest ident)
      in filepath_Join [root, take 4 hash, take 4 (drop 4 hash), drop 8 hash])"

subsection \<open>A library of two items\<close>

text \<open>
  A small environment to run the model on: a photo taken on 5 March 2019 whose
  content is the five bytes \<open>hello\<close>, a second item whose download is refused, and a
  listing of one page or of two.
\<close>

definition ex_time :: Time where
  "ex_time = \<lparr>Year = 2019, Month = March, Day = 5\<rparr>"

definition ex_item :: media_item where
  "ex_item = \<lparr>Id_item = ''abcdefghijklmnop'', MimeType = ''image/jpeg'',
     BaseUrl = ''http://x/a'',
     MediaMetadata = \<lparr>CreationTime = ''2019-03-05T10:20:30Z'', Video = False\<rparr>\<rparr>"

definition ex_item_b :: media_item where
  "ex_item_b = \<lparr>Id_item = ''qrstuvwxyz012345'', MimeType = ''video/mp4'',
     BaseUrl = ''http://x/b'',
     MediaMetadata = \<lparr>CreationTime = ''2019-03-05T10:20:30Z'', Video = True\<rparr>\<rparr>"

definition ex_item_short :: media_item where
  "ex_item_short = ex_item\<lparr>Id_item := ''abc''\<rparr>"

definition ex_item_slashes :: media_item where
  "ex_item_slashes = ex_item\<lparr>Id_item := ''xx/../../../y''\<rparr>"

definition ex_item_json :: media_item where
  "ex_item_json = ex_item\<lparr>MimeType := ''application/json''\<rparr>"

definition ex_item_undated :: media_item where
  "ex_item_undated = ex_item\<lparr>MediaMetadata := \<lparr>CreationTime = [], Video = False\<rparr>\<rparr>"

definition ex_page :: "string \<Rightarrow> search_response" where
  "ex_page next = \<lparr>MediaItems = [ex_item, ex_item_b], NextPageToken = next\<rparr>"

definition ex_env :: env where
  "ex_env = \<lparr>time_Parse = (\<lambda>s. if s = ''2019-03-05T10:20:30Z'' then Inr ex_time
                              else Inl (ErrMsg ''cannot parse'')),
     md5_Sum = (\<lambda>s. 0xd41d8cd98f00b204e9800998ecf8427e),
     ExtensionsByType = (\<lambda>t. if t = ''image/jpeg'' then [''.jpg''] else []),
     MarshalJSON = (\<lambda>i. Inr (''json:'' @ Id_item i)),
     http_Get = (\<lambda>h url. if url = ''http://x/a=d''
                          then Inr \<lparr>ContentLength = 5, Body = ''hello'', BodyErr = None\<rparr>
                          else Inl (ErrMsg ''refused'')),
     Search = (\<lambda>h req. if PageToken req = [] then Inr (ex_page [])
                        else Inl (ErrMsg ''backend'')),
     fault = (\<lambda>h c. None),
     write_limit = (\<lambda>h p. None)\<rparr>"

definition ex_env_two_pages :: env where
  "ex_env_two_pages =
     ex_env\<lparr>Search := (\<lambda>h req. if PageToken req = [] then Inr (ex_page ''p2'')
                                else Inl (ErrMsg ''backend''))\<rparr>"

definition ex_env_down :: env where
  "ex_env_down = ex_env\<lparr>Search := (\<lambda>h req. Inl (ErrMsg ''backend''))\<rparr>"

definition ex_env_unreadable :: env where
  "ex_env_unreadable =
     ex_env\<lparr>fault := (\<lambda>h c. if c = EvStat ''/backup/2019/March/5_ijklmnop.json''
                              then Some EACCES else None)\<rparr>"

text \<open>
  The payload file cannot be created; the payload is empty; the media type of the
  item has the extension of the sidecar; every stat is denied.
\<close>

definition ex_env_readonly :: env where
  "ex_env_readonly =
     ex_env\<lparr>fault := (\<lambda>h c. if c = EvCreate ''/backup/2019/March/5_ijklmnop.jpg''
                              then Some EACCES else None)\<rparr>"

definition ex_env_empty_body :: env where
  "ex_env_empty_body =
     ex_env\<lparr>http_Get := (\<lambda>h url. Inr \<lparr>ContentLength = 0, Body = [], BodyErr = None\<rparr>)\<rparr>"

definition ex_env_json_ext :: env where
  "ex_env_json_ext =
     ex_env\<lparr>ExtensionsByType := (\<lambda>t. if t = ''application/json'' then [''.json'']
                                         else [])\<rparr>"

definition ex_env_denied :: env where
  "ex_env_denied =
     ex_env\<lparr>fault := (\<lambda>h c. case c of EvStat p \<Rightarrow> Some EACCES | _ \<Rightarrow> None)\<rparr>"

definition ex_env_no_json :: env where
  "ex_env_no_json = ex_env\<lparr>MarshalJSON := (\<lambda>i. Inl (ErrMsg ''unsupported value''))\<rparr>"

definition ex_opts :: options where
  "ex_opts = \<lparr>BackupFolder = ''/backup'', MaxItems = 1, PageSize = 50, Throttle = 5,
     AlbumID = []\<rparr>"

definition ex_world :: world where
  "ex_world = \<lparr>files = Map.empty, stats = zero_stats, open_bodies = 0, trace = []\<rparr>"

text \<open>The disk after \<open>ex_item\<close> has been persisted, and the same with a shorter payload.\<close>

definition ex_world_done :: world where
  "ex_world_done =
     ex_world\<lparr>files := [''/backup/2019/March/5_ijklmnop.json'' \<mapsto> ''json:abcdefghijklmnop'',
                        ''/backup/2019/March/5_ijklmnop.jpg'' \<mapsto> ''hello'']\<rparr>"

definition ex_world_stale :: world where
  "ex_world_stale =
     ex_world\<lparr>files := [''/backup/2019/March/5_ijklmnop.json'' \<mapsto> ''json:abcdefghijklmnop'',
                        ''/backup/2019/March/5_ijklmnop.jpg'' \<mapsto> ''hel'']\<rparr>"

section \<open>Properties\<close>

lemmas call_defs = emit_def log_Println_def log_Printf_def time_Sleep_def os_Stat_def
  os_MkdirAll_def ioutil_WriteFile_def os_Create_def io_Copy_def http_Get_call_def
  Body_Close_def svc_Search_def

lemmas eval_defs = getFileNameByTime_def getFileNameByHash_def getFileName_def go_slice_def
  filepath_Join_def filepath_Clean_def filepath_Dir_def Itoa_def decimal.simps digit_char_def
  hex_EncodeToString_def hex_digit_def upt_rec drop_bit_eq_div
  createJSON_def createImage_write_def createImage_def downloadItem_def os_IsNotExist_def
  fetchPage_def sleepTime_def DownloadAll_def Let_def

lemmas ex_defs = ex_time_def ex_item_def ex_item_b_def ex_item_short_def ex_item_undated_def
  ex_page_def ex_env_def ex_env_two_pages_def ex_env_down_def ex_env_unreadable_def
  ex_env_no_json_def ex_opts_def zero_stats_def first_request_def ex_world_def
  ex_world_done_def ex_world_stale_def ex_item_slashes_def ex_item_json_def
  ex_env_readonly_def ex_env_empty_body_def ex_env_json_ext_def ex_env_denied_def

subsection \<open>Naming\<close>

lemma hex_length: "length (hex_EncodeToString d) = 32"
  by (simp add: hex_EncodeToString_def)

text \<open>The slices of the digest are always in range: the hash path never panics.\<close>

lemma getFileNameByHash_eq:
  "getFileNameByHash env opts item =
     Ok (path_by_hash (md5_Sum env) (BackupFolder opts) (Id_item item))"
  by (simp add: getFileNameByHash_def path_by_hash_def go_slice_def hex_length Let_def)






















text \<open>
  Claim C9. When the creation time of an item parses, \<open>getFileNameByTime\<close> slices the
  last eight bytes of the identifier: with an identifier of fewer than eight bytes the
  slice is out of range and the function panics; with eight bytes or more it returns
  the path built from the year, the month name, the day and those eight bytes.
\<close>

theorem getFileNameByTime_needs_eight_bytes:
  assumes "time_Parse env (CreationTime (MediaMetadata item)) = Inr t"
  shows "getFileNameByTime env opts item w =
           (if length (Id_item item) < 8 then (Panic SliceBoundsOutOfRange, w)
            else (Ok (Inr (filepath_Join [BackupFolder opts, Itoa (Year t),
                    Month_String (Month t),
                    Itoa (Day t) @ ''_'' @ drop (length (Id_item item) - 8) (Id_item item)])), w))
         \<and> (8 \<le> length (Id_item item) \<longrightarrow>
              length (drop (length (Id_item item) - 8) (Id_item item)) = 8)"
  using assms by (auto simp: getFileNameByTime_def go_slice_def Let_def nat_diff_distrib)

theorem getFileNameByTime_needs_eight_bytes_witness:
  "time_Parse ex_env (CreationTime (MediaMetadata ex_item_short)) = Inr ex_time
   \<and> getFileNameByTime ex_env ex_opts ex_item_short ex_world
       = (Panic SliceBoundsOutOfRange, ex_world)
   \<and> time_Parse ex_env (CreationTime (MediaMetadata ex_item)) = Inr ex_time
   \<and> getFileNameByTime ex_env ex_opts ex_item ex_world
       = (Ok (Inr ''/backup/2019/March/5_ijklmnop''), ex_world)"
proof -
  have p1: "time_Parse ex_env (CreationTime (MediaMetadata ex_item_short)) = Inr ex_time"
    by (simp add: ex_defs)
  have p2: "time_Parse ex_env (CreationTime (MediaMetadata ex_item)) = Inr ex_time"
    by (simp add: ex_defs)
  have j: "filepath_Join [''/backup'', ''2019'', ''March'', ''5_ijklmnop'']
            = ''/backup/2019/March/5_ijklmnop''"
    by (simp add: filepath_Join_def filepath_Clean_def)
  show ?thesis
    using getFileNameByTime_needs_eight_bytes [OF p1, of ex_opts ex_world]
      getFileNameByTime_needs_eight_bytes [OF p2, of ex_opts ex_world] p1 p2 j
    by (simp add: ex_defs Itoa_def decimal.simps digit_char_def)
qed




subsection \<open>What persisting an item leaves alone\<close>

lemma quiet_ext_iff:
  "quiet_ext w w' \<longleftrightarrow> (\<exists>es. trace w' = trace w @ es \<and> list_all quiet es)"
proof
  assume "quiet_ext w w'"
  then show "\<exists>es. trace w' = trace w @ es \<and> list_all quiet es"
    unfolding quiet_ext_def by (metis append_take_drop_id)
next
  assume "\<exists>es. trace w' = trace w @ es \<and> list_all quiet es"
  then show "quiet_ext w w'"
    by (auto simp: quiet_ext_def)
qed

lemma item_step_iff:
  "item_step w w' \<longleftrightarrow>
     (\<exists>es. trace w' = trace w @ es \<and> list_all quiet es)
     \<and> total_cnt (stats w') = total_cnt (stats w) \<and> errors (stats w') = errors (stats w)"
  by (simp add: item_step_def quiet_ext_iff)

lemma os_Stat_step: "os_Stat env p w = (r, w') \<Longrightarrow> item_step w w'"
  by (auto simp: item_step_iff os_Stat_def emit_def Let_def split: option.splits)

lemma os_MkdirAll_step: "os_MkdirAll env p w = (r, w') \<Longrightarrow> item_step w w'"
  by (auto simp: item_step_iff os_MkdirAll_def emit_def Let_def split: option.splits)

lemma ioutil_WriteFile_step: "ioutil_WriteFile env p d w = (r, w') \<Longrightarrow> item_step w w'"
  by (auto simp: item_step_iff ioutil_WriteFile_def emit_def Let_def
        split: option.splits if_splits)

lemma os_Create_step: "os_Create env p w = (r, w') \<Longrightarrow> item_step w w'"
  by (auto simp: item_step_iff os_Create_def emit_def Let_def split: option.splits)

lemma io_Copy_step: "io_Copy env p resp w = (r, w') \<Longrightarrow> item_step w w'"
  by (auto simp: item_step_iff io_Copy_def emit_def Let_def split: option.splits if_splits)

lemma http_Get_call_step: "http_Get_call env u w = (r, w') \<Longrightarrow> item_step w w'"
  by (auto simp: item_step_iff http_Get_call_def emit_def Let_def split: sum.splits)

lemma createImage_write_step:
  "createImage_write env fileName resp w = (e, w') \<Longrightarrow> item_step w w'"
  by (auto simp: createImage_write_def item_step_iff Body_Close_def log_Printf_def emit_def
        Let_def split: prod.splits option.splits
        dest!: os_Create_step io_Copy_step)

lemma createImage_step:
  "createImage env item fileName w = (e, w') \<Longrightarrow> item_step w w'"
  by (auto simp: createImage_def item_step_iff log_Printf_def log_Println_def emit_def
        Let_def split: prod.splits sum.splits if_splits
        dest!: http_Get_call_step os_Stat_step createImage_write_step)


lemma getFileName_step: "getFileName env opts item w = (r, w') \<Longrightarrow> item_step w w'"
  by (auto simp: getFileName_def getFileNameByTime_def item_step_iff log_Println_def emit_def
        Let_def split: sum.splits option.splits outcome.splits)

lemma createJSON_step: "createJSON env item fileName w = (e, w') \<Longrightarrow> item_step w w'"
  by (auto simp: createJSON_def item_step_iff log_Printf_def emit_def Let_def
        split: prod.splits sum.splits option.splits if_splits
        dest!: os_Stat_step os_MkdirAll_step ioutil_WriteFile_step)

lemma downloadItem_step: "downloadItem env opts item w = (r, w') \<Longrightarrow> item_step w w'"
  by (auto simp: downloadItem_def item_step_iff Let_def
        split: prod.splits outcome.splits option.splits if_splits
        dest!: getFileName_step createJSON_step createImage_step)

lemma getFileName_frame:
  "getFileName env opts item w = (r, w1) \<Longrightarrow>
     files w1 = files w \<and> stats w1 = stats w \<and> open_bodies w1 = open_bodies w
     \<and> filter payload_call (trace w1) = filter payload_call (trace w)"
  by (auto simp: getFileName_def getFileNameByTime_def getFileNameByHash_eq log_Println_def
        emit_def Let_def split: sum.splits option.splits outcome.splits)

lemma createJSON_no_payload_call:
  "filter payload_call (trace (snd (createJSON env item fileName w)))
     = filter payload_call (trace w)"
  by (auto simp: createJSON_def call_defs os_IsNotExist_def Let_def
        split: sum.splits option.splits prod.splits)

lemma createJSON_frame:
  "createJSON env item fileName w = (e, w') \<Longrightarrow>
     stats w' = stats w \<and> open_bodies w' = open_bodies w"
  by (auto simp: createJSON_def call_defs os_IsNotExist_def Let_def
        split: sum.splits option.splits prod.splits if_splits)

subsection \<open>The payload\<close>

text \<open>
  When the payload file has the size the response declares, \<open>createImage\<close> returns at
  line 106, before the \<open>defer\<close> of line 124: nothing is written or counted, and the
  body of the response stays open.
\<close>

lemma createImage_same_size:
  assumes "http_Get_call env (if Video (MediaMetadata item) then BaseUrl item @ ''=dv''
              else BaseUrl item @ ''=d'') w = (Inr resp, w1)"
    and "os_Stat env fileName w1 = (Inr fileInfo, w2)"
    and "ContentLength resp = Size fileInfo"
  shows "createImage env item fileName w = (None, log_Println LogAlreadyDownloaded w2)
         \<and> files w2 = files w \<and> stats w2 = stats w \<and> open_bodies w2 = open_bodies w + 1"
  using assms
  by (auto simp: createImage_def call_defs Let_def split: sum.splits option.splits)

text \<open>
  Claim C1. Persisting an item whose payload file already has the size that the
  response declares returns success, rewrites no file and changes no counter; the
  claim says it also closes the body of the response. On the disk left by a first
  download of \<open>ex_item\<close> the second call does the first three and does not close the
  body: one body stays open and the trace has no close.
\<close>

theorem downloadItem_same_size_leaves_body_open:
  "downloadItem ex_env ex_opts ex_item ex_world_done =
     (Ok None,
      ex_world_done\<lparr>open_bodies := 1,
        trace := [EvStat ''/backup/2019/March/5_ijklmnop.json'', EvGet ''http://x/a=d'',
                  EvStat ''/backup/2019/March/5_ijklmnop.jpg'', EvLog LogAlreadyDownloaded]\<rparr>)"
  by (simp add: eval_defs call_defs ex_defs)

text \<open>
  When the payload file exists with a size that differs from the content length of the
  response, \<open>createImage\<close> goes on to create the file again and to copy the body.
\<close>

lemma createImage_size_differs:
  assumes get: "http_Get_call env (if Video (MediaMetadata item) then BaseUrl item @ ''=dv''
              else BaseUrl item @ ''=d'') w = (Inr resp, w1)"
    and stat: "os_Stat env fileName w1 = (Inr fileInfo, w2)"
    and differ: "Size fileInfo \<noteq> ContentLength resp"
    and create: "os_Create env fileName (log_Printf LogSizeChanged w2) = (None, w3)"
    and copy: "io_Copy env fileName resp w3 = ((n, cerr), w4)"
  shows "createImage env item fileName w
           = createImage_write env fileName resp (log_Printf LogSizeChanged w2)
         \<and> files w3 fileName = Some []
         \<and> files w4 fileName = Some (take n (Body resp))
         \<and> fst (createImage env item fileName w) = cerr
         \<and> files (snd (createImage env item fileName w)) = files w4
         \<and> open_bodies (snd (createImage env item fileName w)) = open_bodies w
         \<and> (case cerr of
              None \<Rightarrow>
                n = length (Body resp)
                \<and> stats (snd (createImage env item fileName w))
                    = (stats w)\<lparr>downloaded := downloaded (stats w) + 1,
                        totalsize := totalsize (stats w) + word_of_nat n\<rparr>
            | Some err \<Rightarrow> stats (snd (createImage env item fileName w)) = stats w)"
proof -
  have a: "createImage env item fileName w
           = createImage_write env fileName resp (log_Printf LogSizeChanged w2)"
    using get stat differ by (auto simp: createImage_def Let_def)
  have s: "stats w3 = stats w \<and> open_bodies w3 = open_bodies w + 1 \<and> files w3 fileName = Some []"
    using get stat create
    by (auto simp: call_defs Let_def split: sum.splits option.splits)
  have c: "files w4 fileName = Some (take n (Body resp)) \<and> stats w4 = stats w3
      \<and> open_bodies w4 = open_bodies w3 \<and> (cerr = None \<longrightarrow> n = length (Body resp))"
    using copy s
    by (auto simp: call_defs Let_def split: sum.splits option.splits if_splits)
  show ?thesis
    unfolding a using s c create copy
    by (cases cerr) (auto simp: createImage_write_def Body_Close_def emit_def log_Printf_def Let_def)
qed

text \<open>
  Claim C4, as stated, fails. On a disk where the payload file of \<open>ex_item\<close> holds three
  bytes and the response declares five, persisting the item returns the error of
  \<open>os.Create\<close> when the file cannot be created, and the file keeps its three bytes:
  nothing is truncated or overwritten. And when the response declares no bytes and its
  body is empty, the copy succeeds and the downloaded counter grows, while the byte
  counter stays as it was.
\<close>

theorem downloadItem_redownload_counterexample:
  "files ex_world_stale ''/backup/2019/March/5_ijklmnop.jpg'' = Some ''hel''
   \<and> http_Get ex_env_readonly [] ''http://x/a=d''
        = Inr \<lparr>ContentLength = 5, Body = ''hello'', BodyErr = None\<rparr>
   \<and> downloadItem ex_env_readonly ex_opts ex_item ex_world_stale
        = (Ok (Some (ErrSys EACCES)),
           ex_world_stale\<lparr>open_bodies := 1,
             trace := [EvStat ''/backup/2019/March/5_ijklmnop.json'', EvGet ''http://x/a=d'',
                       EvStat ''/backup/2019/March/5_ijklmnop.jpg'', EvLog LogSizeChanged,
                       EvCreate ''/backup/2019/March/5_ijklmnop.jpg'']\<rparr>)
   \<and> http_Get ex_env_empty_body [] ''http://x/a=d''
        = Inr \<lparr>ContentLength = 0, Body = [], BodyErr = None\<rparr>
   \<and> downloadItem ex_env_empty_body ex_opts ex_item ex_world_stale
        = (Ok None,
           ex_world_stale\<lparr>
             files := (files ex_world_stale)(''/backup/2019/March/5_ijklmnop.jpg'' \<mapsto> []),
             stats := zero_stats\<lparr>downloaded := 1\<rparr>,
             trace := [EvStat ''/backup/2019/March/5_ijklmnop.json'', EvGet ''http://x/a=d'',
                       EvStat ''/backup/2019/March/5_ijklmnop.jpg'', EvLog LogSizeChanged,
                       EvCreate ''/backup/2019/March/5_ijklmnop.jpg'',
                       EvCopy ''/backup/2019/March/5_ijklmnop.jpg'',
                       EvLog (LogDownloaded ''/backup/2019/March/5_ijklmnop.jpg'' 0),
                       EvBodyClose]\<rparr>)
   \<and> totalsize (stats (snd (downloadItem ex_env_empty_body ex_opts ex_item ex_world_stale)))
        = totalsize (stats ex_world_stale)"
  by (simp add: eval_defs call_defs ex_defs)

text \<open>
  Claim C4, amended. For every item whose payload file exists with a size that differs
  from the content length of the response, persisting the item, when \<open>os.Create\<close> of
  the payload path succeeds, truncates the file and overwrites it: the file is empty
  after the create and holds exactly the bytes copied at the end, and the body is
  closed. When the copy succeeds the result is success, the file holds the whole body,
  the downloaded counter has grown by one and the byte counter by the number of bytes
  copied; when the copy fails its error is the result and the counters stay.
\<close>

theorem downloadItem_redownload:
  assumes name: "getFileName env opts item w = (Ok name, w1)"
    and sidecar: "createJSON env item (name @ ''.json'') w1 = (None, w2)"
    and path: "imageName = (if length (ExtensionsByType env (MimeType item)) > 0
                 then name @ ExtensionsByType env (MimeType item) ! 0 else name)"
    and get: "http_Get_call env (if Video (MediaMetadata item) then BaseUrl item @ ''=dv''
              else BaseUrl item @ ''=d'') w2 = (Inr resp, w3)"
    and stat: "os_Stat env imageName w3 = (Inr fileInfo, w4)"
    and differ: "Size fileInfo \<noteq> ContentLength resp"
    and create: "os_Create env imageName (log_Printf LogSizeChanged w4) = (None, w5)"
    and copy: "io_Copy env imageName resp w5 = ((n, cerr), w6)"
  shows "fst (downloadItem env opts item w) = Ok cerr
         \<and> files w5 imageName = Some []
         \<and> files (snd (downloadItem env opts item w)) imageName = Some (take n (Body resp))
         \<and> open_bodies (snd (downloadItem env opts item w)) = open_bodies w
         \<and> (case cerr of
              None \<Rightarrow>
                n = length (Body resp)
                \<and> files (snd (downloadItem env opts item w)) imageName = Some (Body resp)
                \<and> stats (snd (downloadItem env opts item w))
                    = (stats w)\<lparr>downloaded := downloaded (stats w) + 1,
                        totalsize := totalsize (stats w) + word_of_nat n\<rparr>
            | Some err \<Rightarrow> stats (snd (downloadItem env opts item w)) = stats w)"
proof -
  obtain e w7 where i: "createImage env item imageName w2 = (e, w7)"
    by (cases "createImage env item imageName w2")
  have d: "downloadItem env opts item w = (Ok e, w7)"
    using name sidecar i path by (simp add: downloadItem_def Let_def)
  have f: "stats w2 = stats w \<and> open_bodies w2 = open_bodies w"
    using getFileName_frame [OF name] createJSON_frame [OF sidecar] by simp
  note t = createImage_size_differs [OF get stat differ create copy]
  from t i have e: "e = cerr" by simp
  from t i have fl: "files w7 = files w6" by simp
  from t have f5: "files w5 imageName = Some []" by blast
  from t have f6: "files w6 imageName = Some (take n (Body resp))" by blast
  from t i f have ob: "open_bodies w7 = open_bodies w" by simp
  from t i f have st: "(case cerr of
              None \<Rightarrow>
                n = length (Body resp)
                \<and> stats w7
                    = (stats w)\<lparr>downloaded := downloaded (stats w) + 1,
                        totalsize := totalsize (stats w) + word_of_nat n\<rparr>
            | Some err \<Rightarrow> stats w7 = stats w)"
    by (cases cerr) simp_all
  show ?thesis
    unfolding d using e fl f5 f6 ob st by (cases cerr) simp_all
qed

theorem downloadItem_redownload_witness:
  "getFileName ex_env ex_opts ex_item ex_world_stale
      = (Ok ''/backup/2019/March/5_ijklmnop'', ex_world_stale)
   \<and> files ex_world_stale ''/backup/2019/March/5_ijklmnop.jpg'' = Some ''hel''
   \<and> fst (downloadItem ex_env ex_opts ex_item ex_world_stale) = Ok None
   \<and> files (snd (downloadItem ex_env ex_opts ex_item ex_world_stale))
        ''/backup/2019/March/5_ijklmnop.jpg'' = Some ''hello''
   \<and> open_bodies (snd (downloadItem ex_env ex_opts ex_item ex_world_stale)) = 0
   \<and> stats (snd (downloadItem ex_env ex_opts ex_item ex_world_stale))
        = zero_stats\<lparr>downloaded := 1, totalsize := 5\<rparr>"
proof -
  let ?n = "''/backup/2019/March/5_ijklmnop''"
  let ?p = "''/backup/2019/March/5_ijklmnop.jpg''"
  let ?u = "if Video (MediaMetadata ex_item) then BaseUrl ex_item @ ''=dv''
            else BaseUrl ex_item @ ''=d''"
  let ?r = "\<lparr>ContentLength = 5, Body = ''hello'', BodyErr = None\<rparr>"
  define w2 where "w2 = snd (createJSON ex_env ex_item (?n @ ''.json'') ex_world_stale)"
  define w3 where "w3 = snd (http_Get_call ex_env ?u w2)"
  define w4 where "w4 = snd (os_Stat ex_env ?p w3)"
  define w5 where "w5 = snd (os_Create ex_env ?p (log_Printf LogSizeChanged w4))"
  define w6 where "w6 = snd (io_Copy ex_env ?p ?r w5)"
  have name: "getFileName ex_env ex_opts ex_item ex_world_stale = (Ok ?n, ex_world_stale)"
    by (simp add: eval_defs ex_defs)
  have old: "files ex_world_stale ?p = Some ''hel''"
    by (simp add: ex_defs)
  have sidecar: "createJSON ex_env ex_item (?n @ ''.json'') ex_world_stale = (None, w2)"
    by (simp add: w2_def createJSON_def os_IsNotExist_def call_defs ex_defs)
  have path: "?p = (if length (ExtensionsByType ex_env (MimeType ex_item)) > 0
                 then ?n @ ExtensionsByType ex_env (MimeType ex_item) ! 0 else ?n)"
    by (simp add: ex_defs)
  have get: "http_Get_call ex_env ?u w2 = (Inr ?r, w3)"
    by (simp add: w3_def w2_def createJSON_def os_IsNotExist_def call_defs ex_defs)
  have stat: "os_Stat ex_env ?p w3 = (Inr \<lparr>Size = 3\<rparr>, w4)"
    by (simp add: w4_def w3_def w2_def createJSON_def os_IsNotExist_def call_defs ex_defs)
  have differ: "Size \<lparr>Size = 3\<rparr> \<noteq> ContentLength ?r"
    by simp
  have create: "os_Create ex_env ?p (log_Printf LogSizeChanged w4) = (None, w5)"
    by (simp add: w5_def call_defs ex_defs)
  have copy: "io_Copy ex_env ?p ?r w5 = ((5, None), w6)"
    by (simp add: w6_def call_defs ex_defs)
  note t = downloadItem_redownload [OF name sidecar path get stat differ create copy]
  from t have a: "fst (downloadItem ex_env ex_opts ex_item ex_world_stale) = Ok None"
    by blast
  from t have b: "files (snd (downloadItem ex_env ex_opts ex_item ex_world_stale)) ?p
      = Some ''hello''"
    by simp
  from t have c: "open_bodies (snd (downloadItem ex_env ex_opts ex_item ex_world_stale)) = 0"
    by (simp add: ex_defs)
  from t have d: "stats (snd (downloadItem ex_env ex_opts ex_item ex_world_stale))
        = zero_stats\<lparr>downloaded := 1, totalsize := 5\<rparr>"
    by (simp add: ex_defs)
  from name old a b c d show ?thesis by simp
qed

subsection \<open>The sidecar\<close>

text \<open>
  The payload step writes to the payload path only, so persisting an item leaves an
  existing sidecar as it is whenever the payload has another path, that is, unless
  the extension found for the media type is \<open>.json\<close> itself.
\<close>

lemma os_Stat_files: "os_Stat env n w = (r, w') \<Longrightarrow> files w' = files w"
  by (auto simp: os_Stat_def emit_def Let_def split: option.splits)

lemma http_Get_call_files: "http_Get_call env u w = (r, w') \<Longrightarrow> files w' = files w"
  by (auto simp: http_Get_call_def emit_def Let_def split: sum.splits)

lemma os_Create_files:
  "os_Create env n w = (r, w') \<Longrightarrow> \<forall>p. p \<noteq> n \<longrightarrow> files w' p = files w p"
  by (auto simp: os_Create_def emit_def Let_def split: option.splits)

lemma io_Copy_files:
  "io_Copy env n resp w = (r, w') \<Longrightarrow> \<forall>p. p \<noteq> n \<longrightarrow> files w' p = files w p"
  by (auto simp: io_Copy_def emit_def Let_def split: option.splits if_splits)

lemma createImage_write_files:
  "createImage_write env fileName resp w = (e, w') \<Longrightarrow>
     \<forall>p. p \<noteq> fileName \<longrightarrow> files w' p = files w p"
  by (auto simp: createImage_write_def Body_Close_def log_Printf_def emit_def
        Let_def split: prod.splits option.splits
        dest!: os_Create_files io_Copy_files)

lemma createImage_files:
  "createImage env item fileName w = (e, w') \<Longrightarrow>
     \<forall>p. p \<noteq> fileName \<longrightarrow> files w' p = files w p"
  by (auto simp: createImage_def log_Printf_def log_Println_def emit_def
        Let_def split: prod.splits sum.splits if_splits
        dest!: http_Get_call_files os_Stat_files createImage_write_files)

lemma createJSON_existing:
  "files w fileName \<noteq> None \<Longrightarrow>
     \<exists>w1. createJSON env item fileName w = (None, w1) \<and> files w1 = files w"
  by (auto simp: createJSON_def os_Stat_def os_IsNotExist_def emit_def Let_def
        split: option.splits)

lemma downloadItem_keeps_sidecar:
  assumes name: "getFileName env opts item w = (Ok name, w1)"
    and ex: "files w (name @ ''.json'') \<noteq> None"
    and ext: "ExtensionsByType env (MimeType item) = []
              \<or> ExtensionsByType env (MimeType item) ! 0 \<noteq> ''.json''"
  shows "files (snd (downloadItem env opts item w)) (name @ ''.json'')
           = files w (name @ ''.json'')"
proof -
  let ?j = "name @ ''.json''"
  let ?i = "if length (ExtensionsByType env (MimeType item)) > 0
            then name @ ExtensionsByType env (MimeType item) ! 0 else name"
  from getFileName_frame [OF name] have f1: "files w1 = files w" by simp
  with ex have "files w1 ?j \<noteq> None" by simp
  from createJSON_existing [OF this] obtain w2 where
    j: "createJSON env item ?j w1 = (None, w2)" and f2: "files w2 = files w1"
    by blast
  obtain e w3 where i: "createImage env item ?i w2 = (e, w3)"
    by (cases "createImage env item ?i w2")
  have "?j \<noteq> ?i" using ext by auto
  with createImage_files [OF i] have "files w3 ?j = files w2 ?j" by blast
  moreover have "downloadItem env opts item w = (Ok e, w3)"
    using name j i by (simp add: downloadItem_def Let_def)
  ultimately show ?thesis using f1 f2 by simp
qed

text \<open>
  Claim C5, as stated, fails. For an item whose media type has the extension \<open>.json\<close>
  the payload path is the sidecar path: with the sidecar on the disk, persisting the
  item finds it, leaves it, and then writes the payload over it.
\<close>

theorem createJSON_once_counterexample:
  "files ex_world_done ''/backup/2019/March/5_ijklmnop.json'' = Some ''json:abcdefghijklmnop''
   \<and> ExtensionsByType ex_env_json_ext (MimeType ex_item_json) = [''.json'']
   \<and> fst (downloadItem ex_env_json_ext ex_opts ex_item_json ex_world_done) = Ok None
   \<and> files (snd (downloadItem ex_env_json_ext ex_opts ex_item_json ex_world_done))
        ''/backup/2019/March/5_ijklmnop.json'' = Some ''hello''
   \<and> trace (snd (downloadItem ex_env_json_ext ex_opts ex_item_json ex_world_done))
        = [EvStat ''/backup/2019/March/5_ijklmnop.json'', EvGet ''http://x/a=d'',
           EvStat ''/backup/2019/March/5_ijklmnop.json'', EvLog LogSizeChanged,
           EvCreate ''/backup/2019/March/5_ijklmnop.json'',
           EvCopy ''/backup/2019/March/5_ijklmnop.json'',
           EvLog (LogDownloaded ''/backup/2019/March/5_ijklmnop.json'' 5), EvBodyClose]"
  by (simp add: eval_defs call_defs ex_defs)

text \<open>
  Claim C5, amended. \<open>createJSON\<close> writes nothing when the sidecar file exists, whatever
  the item it is called with, and the whole of \<open>downloadItem\<close> leaves the sidecar as it
  is provided the payload goes to another path, that is, the extension found for the
  media type of the item is not \<open>.json\<close>. When \<open>createJSON\<close> returns an error,
  \<open>downloadItem\<close> returns that error in the world \<open>createJSON\<close> left: the payload is not
  fetched, created or copied. With the sidecar missing, a failure to serialise and a
  failure to create the directory are returned as they are, with no file written, and
  otherwise the result is that of writing the file.
\<close>

theorem createJSON_once:
  "(files w fileName \<noteq> None \<longrightarrow>
       fst (createJSON env item fileName w) = None
       \<and> files (snd (createJSON env item fileName w)) = files w)
   \<and> (\<forall>name w1.
         getFileName env opts item w = (Ok name, w1)
         \<and> files w (name @ ''.json'') \<noteq> None
         \<and> (ExtensionsByType env (MimeType item) = []
              \<or> ExtensionsByType env (MimeType item) ! 0 \<noteq> ''.json'')
         \<longrightarrow> files (snd (downloadItem env opts item w)) (name @ ''.json'')
               = files w (name @ ''.json''))
   \<and> (\<forall>name w1 err w2.
         getFileName env opts item w = (Ok name, w1)
         \<and> createJSON env item (name @ ''.json'') w1 = (Some err, w2)
         \<longrightarrow> downloadItem env opts item w = (Ok (Some err), w2)
             \<and> filter payload_call (trace w2) = filter payload_call (trace w))
   \<and> (\<forall>w1. os_Stat env fileName w = (Inl ErrNotExist, w1) \<longrightarrow>
         (\<forall>e. MarshalJSON env item = Inl e \<longrightarrow>
            fst (createJSON env item fileName w) = Some e
            \<and> files (snd (createJSON env item fileName w)) = files w)
         \<and> (\<forall>bytes e w3. MarshalJSON env item = Inr bytes
              \<and> os_MkdirAll env (filepath_Dir fileName) (log_Printf (LogCreating fileName) w1)
                  = (Some e, w3)
              \<longrightarrow> createJSON env item fileName w = (Some e, w3) \<and> files w3 = files w)
         \<and> (\<forall>bytes w3. MarshalJSON env item = Inr bytes
              \<and> os_MkdirAll env (filepath_Dir fileName) (log_Printf (LogCreating fileName) w1)
                  = (None, w3)
              \<longrightarrow> createJSON env item fileName w = ioutil_WriteFile env fileName bytes w3))"
proof (intro conjI allI impI)
  assume "files w fileName \<noteq> None"
  then show "fst (createJSON env item fileName w) = None"
    by (auto simp: createJSON_def os_Stat_def os_IsNotExist_def Let_def split: option.splits)
next
  assume "files w fileName \<noteq> None"
  then show "files (snd (createJSON env item fileName w)) = files w"
    by (auto simp: createJSON_def os_Stat_def os_IsNotExist_def emit_def Let_def
          split: option.splits)
next
  fix name w1
  assume "getFileName env opts item w = (Ok name, w1)
         \<and> files w (name @ ''.json'') \<noteq> None
         \<and> (ExtensionsByType env (MimeType item) = []
              \<or> ExtensionsByType env (MimeType item) ! 0 \<noteq> ''.json'')"
  then show "files (snd (downloadItem env opts item w)) (name @ ''.json'')
               = files w (name @ ''.json'')"
    using downloadItem_keeps_sidecar by blast
next
  fix name w1 err w2
  assume a: "getFileName env opts item w = (Ok name, w1)
         \<and> createJSON env item (name @ ''.json'') w1 = (Some err, w2)"
  then show "downloadItem env opts item w = (Ok (Some err), w2)"
    by (simp add: downloadItem_def Let_def)
  from a have "filter payload_call (trace w1) = filter payload_call (trace w)"
    using getFileName_frame by blast
  moreover from a have "filter payload_call (trace w2) = filter payload_call (trace w1)"
    using createJSON_no_payload_call [of env item "name @ ''.json''" w1] by simp
  ultimately show "filter payload_call (trace w2) = filter payload_call (trace w)"
    by simp
next
  fix w1 e
  assume "os_Stat env fileName w = (Inl ErrNotExist, w1)" "MarshalJSON env item = Inl e"
  then show "fst (createJSON env item fileName w) = Some e"
    by (simp add: createJSON_def os_IsNotExist_def Let_def)
next
  fix w1 e
  assume "os_Stat env fileName w = (Inl ErrNotExist, w1)" "MarshalJSON env item = Inl e"
  then show "files (snd (createJSON env item fileName w)) = files w"
    by (auto simp: createJSON_def os_IsNotExist_def call_defs Let_def split: option.splits)
next
  fix w1 bytes e w3
  assume a: "os_Stat env fileName w = (Inl ErrNotExist, w1)"
    "MarshalJSON env item = Inr bytes
      \<and> os_MkdirAll env (filepath_Dir fileName) (log_Printf (LogCreating fileName) w1)
          = (Some e, w3)"
  then show "createJSON env item fileName w = (Some e, w3)"
    by (simp add: createJSON_def os_IsNotExist_def Let_def)
  from a show "files w3 = files w"
    by (auto simp: call_defs Let_def split: option.splits)
next
  fix w1 bytes w3
  assume "os_Stat env fileName w = (Inl ErrNotExist, w1)"
    "MarshalJSON env item = Inr bytes
      \<and> os_MkdirAll env (filepath_Dir fileName) (log_Printf (LogCreating fileName) w1)
          = (None, w3)"
  then show "createJSON env item fileName w = ioutil_WriteFile env fileName bytes w3"
    by (simp add: createJSON_def os_IsNotExist_def Let_def)
qed


theorem createJSON_once_witness:
  "files ex_world_done ''/backup/2019/March/5_ijklmnop.json'' \<noteq> None
   \<and> createJSON ex_env ex_item_b ''/backup/2019/March/5_ijklmnop.json'' ex_world_done
       = (None, ex_world_done\<lparr>trace := [EvStat ''/backup/2019/March/5_ijklmnop.json'']\<rparr>)
   \<and> files (snd (createJSON ex_env ex_item_b ''/backup/2019/March/5_ijklmnop.json''
         ex_world_done)) = files ex_world_done
   \<and> files (snd (downloadItem ex_env ex_opts ex_item ex_world_stale))
         ''/backup/2019/March/5_ijklmnop.json'' = Some ''json:abcdefghijklmnop''
   \<and> getFileName ex_env_no_json ex_opts ex_item ex_world
       = (Ok ''/backup/2019/March/5_ijklmnop'', ex_world)
   \<and> createJSON ex_env_no_json ex_item (''/backup/2019/March/5_ijklmnop'' @ ''.json'') ex_world
       = (Some (ErrMsg ''unsupported value''),
          ex_world\<lparr>trace := [EvStat ''/backup/2019/March/5_ijklmnop.json'',
                               EvLog (LogCreating ''/backup/2019/March/5_ijklmnop.json'')]\<rparr>)
   \<and> downloadItem ex_env_no_json ex_opts ex_item ex_world
       = (Ok (Some (ErrMsg ''unsupported value'')),
          ex_world\<lparr>trace := [EvStat ''/backup/2019/March/5_ijklmnop.json'',
                               EvLog (LogCreating ''/backup/2019/March/5_ijklmnop.json'')]\<rparr>)"
proof -
  let ?j = "''/backup/2019/March/5_ijklmnop.json''"
  let ?w2 = "ex_world\<lparr>trace := [EvStat ?j, EvLog (LogCreating ?j)]\<rparr>"
  have ex: "files ex_world_done ?j \<noteq> None"
    by (simp add: ex_defs)
  have ev: "createJSON ex_env ex_item_b ?j ex_world_done
       = (None, ex_world_done\<lparr>trace := [EvStat ?j]\<rparr>)"
    by (simp add: createJSON_def call_defs os_IsNotExist_def ex_defs)
  have same: "files (snd (createJSON ex_env ex_item_b ?j ex_world_done)) = files ex_world_done"
    using createJSON_once [THEN conjunct1, rule_format, OF ex] by simp
  have g: "getFileName ex_env ex_opts ex_item ex_world_stale
       = (Ok ''/backup/2019/March/5_ijklmnop'', ex_world_stale)
     \<and> files ex_world_stale (''/backup/2019/March/5_ijklmnop'' @ ''.json'') \<noteq> None
     \<and> (ExtensionsByType ex_env (MimeType ex_item) = []
          \<or> ExtensionsByType ex_env (MimeType ex_item) ! 0 \<noteq> ''.json'')"
    by (simp add: eval_defs ex_defs)
  have keep: "files (snd (downloadItem ex_env ex_opts ex_item ex_world_stale))
         ''/backup/2019/March/5_ijklmnop.json'' = Some ''json:abcdefghijklmnop''"
    using createJSON_once [THEN conjunct2, THEN conjunct1, rule_format, OF g]
    by (simp add: ex_defs)
  have n: "getFileName ex_env_no_json ex_opts ex_item ex_world
       = (Ok ''/backup/2019/March/5_ijklmnop'', ex_world)"
    by (simp add: eval_defs ex_defs)
  have j: "createJSON ex_env_no_json ex_item (''/backup/2019/March/5_ijklmnop'' @ ''.json'')
       ex_world = (Some (ErrMsg ''unsupported value''), ?w2)"
    by (simp add: createJSON_def call_defs os_IsNotExist_def ex_defs)
  have d: "downloadItem ex_env_no_json ex_opts ex_item ex_world
       = (Ok (Some (ErrMsg ''unsupported value'')), ?w2)"
    using createJSON_once [THEN conjunct2, THEN conjunct2, THEN conjunct1, rule_format,
        OF conjI, OF n j]
    by simp
  from ex ev same keep n j d show ?thesis by simp
qed

text \<open>
  Claim C10, as stated, fails. When every \<open>os.Stat\<close> is denied, the stat of the sidecar
  fails with an error other than not-exist and \<open>createJSON\<close> returns success, but the
  stat of the payload file is denied too: persisting the item returns that error, and
  the loop over the page logs the item as failed and counts one error.
\<close>

theorem createJSON_stat_error_counterexample:
  "os_Stat ex_env_denied ''/backup/2019/March/5_ijklmnop.json'' ex_world
      = (Inl (ErrSys EACCES), ex_world\<lparr>trace := [EvStat ''/backup/2019/March/5_ijklmnop.json'']\<rparr>)
   \<and> ErrSys EACCES \<noteq> ErrNotExist
   \<and> createJSON ex_env_denied ex_item ''/backup/2019/March/5_ijklmnop.json'' ex_world
      = (None, ex_world\<lparr>trace := [EvStat ''/backup/2019/March/5_ijklmnop.json'']\<rparr>)
   \<and> downloadItem ex_env_denied ex_opts ex_item ex_world
      = (Ok (Some (ErrSys EACCES)),
         ex_world\<lparr>open_bodies := 1,
           trace := [EvStat ''/backup/2019/March/5_ijklmnop.json'', EvGet ''http://x/a=d'',
                     EvStat ''/backup/2019/March/5_ijklmnop.jpg'', EvLog LogStatError]\<rparr>)
   \<and> processItems ex_env_denied ex_opts [ex_item] ex_world
      = (Ok True,
         ex_world\<lparr>stats := zero_stats\<lparr>total_cnt := 1, errors := 1\<rparr>, open_bodies := 1,
           trace := [EvStat ''/backup/2019/March/5_ijklmnop.json'', EvGet ''http://x/a=d'',
                     EvStat ''/backup/2019/March/5_ijklmnop.jpg'', EvLog LogStatError,
                     EvLog (LogFailed ''abcdefghijklmnop'' (ErrSys EACCES))]\<rparr>)"
  by (simp add: eval_defs call_defs ex_defs)

text \<open>
  Claim C10, amended. When \<open>os.Stat\<close> of the sidecar path fails with an error other than
  not-exist, \<open>createJSON\<close> returns success with nothing written, logged or counted, as
  it does for a sidecar that is there: the sidecar step surfaces no error.
  \<open>downloadItem\<close> goes on to the payload and returns what \<open>createImage\<close> returns, so
  that, for an item below the cap, the loop over the page logs and counts an error for
  the item exactly when the payload step returns one.
\<close>

theorem createJSON_stat_error:
  assumes stat: "os_Stat env fileName w = (Inl err, w1)"
    and other: "err \<noteq> ErrNotExist"
  shows "createJSON env item fileName w = (None, w1)
         \<and> files w1 = files w \<and> stats w1 = stats w
         \<and> trace w1 = trace w @ [EvStat fileName]
         \<and> (\<forall>w' fileInfo w1'. os_Stat env fileName w' = (Inr fileInfo, w1')
               \<longrightarrow> createJSON env item fileName w' = (None, w1'))
         \<and> (\<forall>opts w0 name. getFileName env opts item w0 = (Ok name, w)
               \<and> fileName = name @ ''.json''
               \<longrightarrow> downloadItem env opts item w0
                    = (case createImage env item
                         (if length (ExtensionsByType env (MimeType item)) > 0
                          then name @ ExtensionsByType env (MimeType item) ! 0 else name) w1 of
                         (e, w3) \<Rightarrow> (Ok e, w3)))
         \<and> (\<forall>opts w0 name ms imageName.
               getFileName env opts item
                  (w0\<lparr>stats := (stats w0)\<lparr>total_cnt := total_cnt (stats w0) + 1\<rparr>\<rparr>)
                 = (Ok name, w)
               \<and> fileName = name @ ''.json''
               \<and> \<not> total_cnt (stats w0) + 1 > MaxItems opts
               \<and> imageName = (if length (ExtensionsByType env (MimeType item)) > 0
                     then name @ ExtensionsByType env (MimeType item) ! 0 else name)
               \<longrightarrow> (\<forall>w3. createImage env item imageName w1 = (None, w3)
                      \<longrightarrow> processItems env opts (item # ms) w0 = processItems env opts ms w3)
                   \<and> (\<forall>e w3. createImage env item imageName w1 = (Some e, w3)
                      \<longrightarrow> processItems env opts (item # ms) w0
                          = processItems env opts ms
                              ((log_Printf (LogFailed (Id_item item) e) w3)
                                 \<lparr>stats := (stats w3)\<lparr>errors := errors (stats w3) + 1\<rparr>\<rparr>)))"
proof -
  have a: "createJSON env item fileName w = (None, w1)"
    using stat other by (simp add: createJSON_def os_IsNotExist_def Let_def)
  have b: "files w1 = files w \<and> stats w1 = stats w \<and> trace w1 = trace w @ [EvStat fileName]"
    using stat by (auto simp: os_Stat_def emit_def Let_def split: option.splits)
  have c: "\<forall>w' fileInfo w1'. os_Stat env fileName w' = (Inr fileInfo, w1')
               \<longrightarrow> createJSON env item fileName w' = (None, w1')"
    by (simp add: createJSON_def os_IsNotExist_def Let_def)
  have d: "\<forall>opts w0 name. getFileName env opts item w0 = (Ok name, w)
               \<and> fileName = name @ ''.json''
               \<longrightarrow> downloadItem env opts item w0
                    = (case createImage env item
                         (if length (ExtensionsByType env (MimeType item)) > 0
                          then name @ ExtensionsByType env (MimeType item) ! 0 else name) w1 of
                         (e, w3) \<Rightarrow> (Ok e, w3))"
    using a by (auto simp: downloadItem_def Let_def)
  have e: "\<forall>opts w0 name ms imageName.
               getFileName env opts item
                  (w0\<lparr>stats := (stats w0)\<lparr>total_cnt := total_cnt (stats w0) + 1\<rparr>\<rparr>)
                 = (Ok name, w)
               \<and> fileName = name @ ''.json''
               \<and> \<not> total_cnt (stats w0) + 1 > MaxItems opts
               \<and> imageName = (if length (ExtensionsByType env (MimeType item)) > 0
                     then name @ ExtensionsByType env (MimeType item) ! 0 else name)
               \<longrightarrow> (\<forall>w3. createImage env item imageName w1 = (None, w3)
                      \<longrightarrow> processItems env opts (item # ms) w0 = processItems env opts ms w3)
                   \<and> (\<forall>e w3. createImage env item imageName w1 = (Some e, w3)
                      \<longrightarrow> processItems env opts (item # ms) w0
                          = processItems env opts ms
                              ((log_Printf (LogFailed (Id_item item) e) w3)
                                 \<lparr>stats := (stats w3)\<lparr>errors := errors (stats w3) + 1\<rparr>\<rparr>))"
  proof (intro allI impI conjI)
    fix opts w0 name ms imageName w3
    assume h: "getFileName env opts item
                  (w0\<lparr>stats := (stats w0)\<lparr>total_cnt := total_cnt (stats w0) + 1\<rparr>\<rparr>)
                 = (Ok name, w)
               \<and> fileName = name @ ''.json''
               \<and> \<not> total_cnt (stats w0) + 1 > MaxItems opts
               \<and> imageName = (if length (ExtensionsByType env (MimeType item)) > 0
                     then name @ ExtensionsByType env (MimeType item) ! 0 else name)"
      and i: "createImage env item imageName w1 = (None, w3)"
    from h i d have "downloadItem env opts item
        (w0\<lparr>stats := (stats w0)\<lparr>total_cnt := total_cnt (stats w0) + 1\<rparr>\<rparr>) = (Ok None, w3)"
      by simp
    with h show "processItems env opts (item # ms) w0 = processItems env opts ms w3"
      by (simp add: Let_def)
  next
    fix opts w0 name ms imageName e w3
    assume h: "getFileName env opts item
                  (w0\<lparr>stats := (stats w0)\<lparr>total_cnt := total_cnt (stats w0) + 1\<rparr>\<rparr>)
                 = (Ok name, w)
               \<and> fileName = name @ ''.json''
               \<and> \<not> total_cnt (stats w0) + 1 > MaxItems opts
               \<and> imageName = (if length (ExtensionsByType env (MimeType item)) > 0
                     then name @ ExtensionsByType env (MimeType item) ! 0 else name)"
      and i: "createImage env item imageName w1 = (Some e, w3)"
    from h i d have "downloadItem env opts item
        (w0\<lparr>stats := (stats w0)\<lparr>total_cnt := total_cnt (stats w0) + 1\<rparr>\<rparr>) = (Ok (Some e), w3)"
      by simp
    with h show "processItems env opts (item # ms) w0
                          = processItems env opts ms
                              ((log_Printf (LogFailed (Id_item item) e) w3)
                                 \<lparr>stats := (stats w3)\<lparr>errors := errors (stats w3) + 1\<rparr>\<rparr>)"
      by (simp add: Let_def log_Printf_def emit_def)
  qed
  from a b c d e show ?thesis by blast
qed

theorem createJSON_stat_error_witness:
  "os_Stat ex_env_unreadable ''/backup/2019/March/5_ijklmnop.json'' ex_world
      = (Inl (ErrSys EACCES), ex_world\<lparr>trace := [EvStat ''/backup/2019/March/5_ijklmnop.json'']\<rparr>)
   \<and> ErrSys EACCES \<noteq> ErrNotExist
   \<and> createJSON ex_env_unreadable ex_item ''/backup/2019/March/5_ijklmnop.json'' ex_world
      = (None, ex_world\<lparr>trace := [EvStat ''/backup/2019/March/5_ijklmnop.json'']\<rparr>)
   \<and> errors (stats (snd (processItems ex_env_unreadable ex_opts [ex_item] ex_world))) = 0
   \<and> errors (stats (snd (processItems ex_env_denied ex_opts [ex_item] ex_world))) = 1"
proof -
  let ?j = "''/backup/2019/March/5_ijklmnop.json''"
  let ?n = "''/backup/2019/March/5_ijklmnop''"
  let ?p = "''/backup/2019/March/5_ijklmnop.jpg''"
  let ?start = "ex_world\<lparr>stats := (stats ex_world)\<lparr>total_cnt := total_cnt (stats ex_world) + 1\<rparr>\<rparr>"
  let ?w = "ex_world\<lparr>stats := zero_stats\<lparr>total_cnt := 1\<rparr>\<rparr>"
  let ?w1 = "?w\<lparr>trace := [EvStat ?j]\<rparr>"
  have stat: "os_Stat ex_env_unreadable ?j ex_world
      = (Inl (ErrSys EACCES), ex_world\<lparr>trace := [EvStat ?j]\<rparr>)"
    by (simp add: call_defs ex_defs)
  have other: "ErrSys EACCES \<noteq> ErrNotExist"
    by simp
  from createJSON_stat_error [OF stat other, of ex_item]
  have cj: "createJSON ex_env_unreadable ex_item ?j ex_world
      = (None, ex_world\<lparr>trace := [EvStat ?j]\<rparr>)"
    by blast
  have stat1: "os_Stat ex_env_unreadable ?j ?w = (Inl (ErrSys EACCES), ?w1)"
    by (simp add: call_defs ex_defs)
  have h1: "getFileName ex_env_unreadable ex_opts ex_item ?start = (Ok ?n, ?w)
      \<and> ?j = ?n @ ''.json''
      \<and> \<not> total_cnt (stats ex_world) + 1 > MaxItems ex_opts
      \<and> ?p = (if length (ExtensionsByType ex_env_unreadable (MimeType ex_item)) > 0
               then ?n @ ExtensionsByType ex_env_unreadable (MimeType ex_item) ! 0 else ?n)"
    by (simp add: eval_defs ex_defs)
  define w3 where "w3 = snd (createImage ex_env_unreadable ex_item ?p ?w1)"
  have i1: "createImage ex_env_unreadable ex_item ?p ?w1 = (None, w3)"
    by (simp add: w3_def createImage_def createImage_write_def os_IsNotExist_def call_defs
          ex_defs)
  have e3: "errors (stats w3) = 0"
    by (simp add: w3_def createImage_def createImage_write_def os_IsNotExist_def call_defs
          ex_defs)
  have "processItems ex_env_unreadable ex_opts [ex_item] ex_world
      = processItems ex_env_unreadable ex_opts [] w3"
    using createJSON_stat_error [OF stat1 other, of ex_item, THEN conjunct2, THEN conjunct2,
        THEN conjunct2, THEN conjunct2, THEN conjunct2, THEN conjunct2, rule_format,
        OF h1, THEN conjunct1, rule_format, OF i1] .
  with e3 have ok: "errors (stats (snd (processItems ex_env_unreadable ex_opts [ex_item]
      ex_world))) = 0"
    by simp
  have stat2: "os_Stat ex_env_denied ?j ?w = (Inl (ErrSys EACCES), ?w1)"
    by (simp add: call_defs ex_defs)
  have h2: "getFileName ex_env_denied ex_opts ex_item ?start = (Ok ?n, ?w)
      \<and> ?j = ?n @ ''.json''
      \<and> \<not> total_cnt (stats ex_world) + 1 > MaxItems ex_opts
      \<and> ?p = (if length (ExtensionsByType ex_env_denied (MimeType ex_item)) > 0
               then ?n @ ExtensionsByType ex_env_denied (MimeType ex_item) ! 0 else ?n)"
    by (simp add: eval_defs ex_defs)
  define w4 where "w4 = snd (createImage ex_env_denied ex_item ?p ?w1)"
  have i2: "createImage ex_env_denied ex_item ?p ?w1 = (Some (ErrSys EACCES), w4)"
    by (simp add: w4_def createImage_def createImage_write_def os_IsNotExist_def call_defs
          ex_defs)
  have e4: "errors (stats w4) = 0"
    by (simp add: w4_def createImage_def createImage_write_def os_IsNotExist_def call_defs
          ex_defs)
  have "processItems ex_env_denied ex_opts [ex_item] ex_world
      = processItems ex_env_denied ex_opts []
          ((log_Printf (LogFailed (Id_item ex_item) (ErrSys EACCES)) w4)
             \<lparr>stats := (stats w4)\<lparr>errors := errors (stats w4) + 1\<rparr>\<rparr>)"
    using createJSON_stat_error [OF stat2 other, of ex_item, THEN conjunct2, THEN conjunct2,
        THEN conjunct2, THEN conjunct2, THEN conjunct2, THEN conjunct2, rule_format,
        OF h2, THEN conjunct2, rule_format, OF i2] .
  with e4 have ko: "errors (stats (snd (processItems ex_env_denied ex_opts [ex_item]
      ex_world))) = 1"
    by simp
  from stat other cj ok ko show ?thesis by blast
qed

subsection \<open>The loop over a page\<close>

lemma quiet_ext_refl: "quiet_ext w w"
  by (simp add: quiet_ext_iff)

lemma quiet_ext_trans: "quiet_ext w w1 \<Longrightarrow> quiet_ext w1 w2 \<Longrightarrow> quiet_ext w w2"
  by (auto simp: quiet_ext_iff)

lemma processItems_quiet: "processItems env opts ms w = (r, w') \<Longrightarrow> quiet_ext w w'"
proof (induction ms arbitrary: w)
  case Nil
  then show ?case by (simp add: quiet_ext_refl)
next
  case (Cons m ms)
  let ?w1 = "w\<lparr>stats := (stats w)\<lparr>total_cnt := total_cnt (stats w) + 1\<rparr>\<rparr>"
  have q0: "quiet_ext w ?w1" by (simp add: quiet_ext_iff)
  show ?case
  proof (cases "total_cnt (stats ?w1) > MaxItems opts")
    case True
    with Cons.prems q0 show ?thesis by (simp add: Let_def)
  next
    case False
    obtain d w2 where dl: "downloadItem env opts m ?w1 = (d, w2)"
      by (cases "downloadItem env opts m ?w1")
    then have "quiet_ext ?w1 w2"
      using downloadItem_step item_step_def by blast
    with q0 have q2: "quiet_ext w w2" by (rule quiet_ext_trans)
    show ?thesis
    proof (cases d)
      case (Panic p)
      with Cons.prems False dl q2 show ?thesis by (simp add: Let_def)
    next
      case (Ok e)
      show ?thesis
      proof (cases e)
        case None
        with Cons.prems False dl Ok have "processItems env opts ms w2 = (r, w')"
          by (simp add: Let_def)
        then have "quiet_ext w2 w'" by (rule Cons.IH)
        with q2 show ?thesis by (rule quiet_ext_trans)
      next
        case (Some err)
        let ?w4 = "(log_Printf (LogFailed (Id_item m) err) w2)
                     \<lparr>stats := (stats (log_Printf (LogFailed (Id_item m) err) w2))
                        \<lparr>errors := errors (stats (log_Printf (LogFailed (Id_item m) err) w2)) + 1\<rparr>\<rparr>"
        have "quiet_ext w2 ?w4"
          by (simp add: quiet_ext_iff log_Printf_def emit_def)
        with q2 have q4: "quiet_ext w ?w4" by (rule quiet_ext_trans)
        from Cons.prems False dl Ok Some have "processItems env opts ms ?w4 = (r, w')"
          by (simp add: Let_def)
        then have "quiet_ext ?w4 w'" by (rule Cons.IH)
        with q4 show ?thesis by (rule quiet_ext_trans)
      qed
    qed
  qed
qed

text \<open>Below the cap every item of the page is counted and the loop runs to its end.\<close>

lemma processItems_count:
  "processItems env opts ms w = (Ok b, w') \<Longrightarrow>
   total_cnt (stats w) + int (length ms) \<le> MaxItems opts \<Longrightarrow>
   b \<and> total_cnt (stats w') = total_cnt (stats w) + int (length ms)"
proof (induction ms arbitrary: w)
  case Nil
  then show ?case by simp
next
  case (Cons m ms)
  let ?w1 = "w\<lparr>stats := (stats w)\<lparr>total_cnt := total_cnt (stats w) + 1\<rparr>\<rparr>"
  from Cons.prems(2) have under: "\<not> total_cnt (stats ?w1) > MaxItems opts" by simp
  obtain d w2 where dl: "downloadItem env opts m ?w1 = (d, w2)"
    by (cases "downloadItem env opts m ?w1")
  then have c2: "total_cnt (stats w2) = total_cnt (stats w) + 1"
    using downloadItem_step [OF dl] by (simp add: item_step_def)
  show ?case
  proof (cases d)
    case (Panic p)
    with Cons.prems(1) under dl show ?thesis by (simp add: Let_def)
  next
    case (Ok e)
    show ?thesis
    proof (cases e)
      case None
      with Cons.prems(1) under dl Ok have "processItems env opts ms w2 = (Ok b, w')"
        by (simp add: Let_def)
      from Cons.IH [OF this] Cons.prems(2) c2 show ?thesis by simp
    next
      case (Some err)
      let ?w4 = "(log_Printf (LogFailed (Id_item m) err) w2)
                   \<lparr>stats := (stats (log_Printf (LogFailed (Id_item m) err) w2))
                      \<lparr>errors := errors (stats (log_Printf (LogFailed (Id_item m) err) w2)) + 1\<rparr>\<rparr>"
      have c4: "total_cnt (stats ?w4) = total_cnt (stats w) + 1"
        using c2 by (simp add: log_Printf_def emit_def)
      from Cons.prems(1) under dl Ok Some have "processItems env opts ms ?w4 = (Ok b, w')"
        by (simp add: Let_def)
      from Cons.IH [OF this] Cons.prems(2) c4 show ?thesis by simp
    qed
  qed
qed

text \<open>Processing a page in two parts.\<close>

lemma processItems_append:
  "processItems env opts xs w = (Ok True, w1) \<Longrightarrow>
   processItems env opts (xs @ ys) w = processItems env opts ys w1"
proof (induction xs arbitrary: w)
  case Nil
  then show ?case by simp
next
  case (Cons m ms)
  then show ?case
    by (auto simp: Let_def split: if_splits prod.splits outcome.splits option.splits)
qed

subsection \<open>The loop over the pages\<close>

lemma fetchPage_frame:
  "fetchPage env opts req w = (r, w1) \<Longrightarrow>
     trace w1 = trace w @ [EvLog (LogProgress (total_cnt (stats w)) (downloaded (stats w))
                              (errors (stats w)) (totalsize (stats w)) (sleepTime opts)),
                           EvSleep (sleepTime opts), EvSearch req]
     \<and> stats w1 = stats w \<and> files w1 = files w \<and> open_bodies w1 = open_bodies w"
  by (auto simp: fetchPage_def svc_Search_def time_Sleep_def log_Printf_def emit_def Let_def)

lemma quiet_not_search: "quiet ev \<Longrightarrow> \<not> is_search ev"
  by (induction ev rule: quiet.induct) auto

lemma quiet_ext_searches: "quiet_ext w w' \<Longrightarrow> searches w' = searches w"
proof -
  assume "quiet_ext w w'"
  then obtain es where es: "trace w' = trace w @ es" "list_all quiet es"
    by (auto simp: quiet_ext_iff)
  then have "filter is_search es = []"
    by (auto simp: filter_empty_conv list_all_iff quiet_not_search)
  with es show ?thesis by (simp add: searches_def)
qed

lemma fetchPage_searches: "fetchPage env opts req w = (r, w1) \<Longrightarrow> searches w1 = searches w + 1"
  by (drule fetchPage_frame) (simp add: searches_def)

lemma phases_append:
  "phases d p (xs @ ys) = (case phases d p xs of None \<Rightarrow> None | Some q \<Rightarrow> phases d q ys)"
  by (induction xs arbitrary: p) (auto split: option.splits)

lemma quiet_step: "quiet ev \<Longrightarrow> phase_step d Idle ev = Some Idle"
  by (induction ev rule: quiet.induct) auto

lemma phases_quiet: "list_all quiet es \<Longrightarrow> phases d Idle es = Some Idle"
  by (induction es) (auto simp: quiet_step)

lemma throttled_append: "throttled d xs \<Longrightarrow> throttled d ys \<Longrightarrow> throttled d (xs @ ys)"
  by (simp add: throttled_def phases_append)

lemma throttled_quiet: "list_all quiet es \<Longrightarrow> throttled d es"
  by (simp add: throttled_def phases_quiet)

lemma throttled_fetch: "throttled d [EvLog (LogProgress t n e s x), EvSleep d, EvSearch r]"
  by (simp add: throttled_def)

text \<open>After a summary line the machine accepts nothing: a trace that is not closed has none.\<close>

lemma phases_Done: "phases d Done es = Some q \<Longrightarrow> es = [] \<and> q = Done"
  by (cases es) simp_all

lemma summary_step: "is_summary ev \<Longrightarrow> phase_step d p ev = Some q \<Longrightarrow> q = Done"
  by (cases p; induction ev rule: is_summary.induct) simp_all

lemma phases_no_summary:
  "phases d p es = Some q \<Longrightarrow> q \<noteq> Done \<Longrightarrow> filter is_summary es = []"
proof (induction es arbitrary: p)
  case Nil
  then show ?case by simp
next
  case (Cons ev es)
  from Cons.prems(1) obtain p' where
    st: "phase_step d p ev = Some p'" and rest: "phases d p' es = Some q"
    by (auto split: option.splits)
  have "\<not> is_summary ev"
  proof
    assume "is_summary ev"
    with st have "p' = Done" using summary_step by blast
    with rest Cons.prems(2) show False by (auto dest: phases_Done)
  qed
  with Cons.IH [OF rest Cons.prems(2)] show ?case by simp
qed

lemma throttled_no_summary: "throttled d es \<Longrightarrow> filter is_summary es = []"
  using phases_no_summary [of d Idle es Idle] by (simp add: throttled_def)

lemma pageLoop_throttled:
  "pageLoop fuel env opts req w = (r, w') \<Longrightarrow>
     \<exists>es. trace w' = trace w @ es \<and> throttled (sleepTime opts) es"
proof (induction fuel arbitrary: req w)
  case 0
  then show ?case by (simp add: throttled_def)
next
  case (Suc fuel)
  obtain p w1 where fp: "fetchPage env opts req w = (p, w1)"
    by (cases "fetchPage env opts req w")
  from fetchPage_frame [OF fp] obtain es1 where
    es1: "trace w1 = trace w @ es1" "throttled (sleepTime opts) es1"
    using throttled_fetch by blast
  show ?case
  proof (cases p)
    case (Inl err)
    with Suc.prems fp have "w' = w1" by simp
    with es1 show ?thesis by blast
  next
    case (Inr page)
    obtain b w2 where pi: "processItems env opts (MediaItems page) w1 = (b, w2)"
      by (cases "processItems env opts (MediaItems page) w1")
    from processItems_quiet [OF pi] obtain es2 where
      es2: "trace w2 = trace w1 @ es2" "list_all quiet es2"
      by (auto simp: quiet_ext_iff)
    with es1 have "trace w2 = trace w @ (es1 @ es2)"
      "throttled (sleepTime opts) (es1 @ es2)"
      by (simp_all add: throttled_append throttled_quiet)
    then obtain es12 where t2: "trace w2 = trace w @ es12" "throttled (sleepTime opts) es12"
      by blast
    show ?thesis
    proof (cases b)
      case (Panic x)
      with Suc.prems fp Inr pi have "w' = w2" by simp
      with t2 show ?thesis by blast
    next
      case (Ok hasMore)
      show ?thesis
      proof (cases "NextPageToken page \<noteq> [] \<and> hasMore")
        case True
        with Suc.prems fp Inr pi Ok
        have "pageLoop fuel env opts (req\<lparr>PageToken := NextPageToken page\<rparr>) w2 = (r, w')"
          by (simp add: Let_def)
        from Suc.IH [OF this] obtain es3 where
          "trace w' = trace w2 @ es3" "throttled (sleepTime opts) es3"
          by blast
        with t2 have "trace w' = trace w @ (es12 @ es3)"
          "throttled (sleepTime opts) (es12 @ es3)"
          by (simp_all add: throttled_append)
        then show ?thesis by blast
      next
        case False
        with Suc.prems fp Inr pi Ok have "w' = w2"
          by (auto simp: Let_def split: if_splits)
        with t2 show ?thesis by blast
      qed
    qed
  qed
qed

text \<open>How a run ends: the last event of a loop that has returned.\<close>

lemma pageLoop_last:
  "pageLoop fuel env opts req w = (Returned (Some err), w') \<Longrightarrow> is_search (last (trace w'))"
proof (induction fuel arbitrary: req w)
  case 0
  then show ?case by simp
next
  case (Suc fuel)
  obtain p w1 where fp: "fetchPage env opts req w = (p, w1)"
    by (cases "fetchPage env opts req w")
  show ?case
  proof (cases p)
    case (Inl e)
    with Suc.prems fp have "w' = w1" by simp
    with fetchPage_frame [OF fp] show ?thesis by simp
  next
    case (Inr page)
    with Suc.prems fp show ?thesis
      by (auto simp: Let_def split: prod.splits outcome.splits if_splits dest: Suc.IH)
  qed
qed

text \<open>
  Claim C8. When the listing call of an iteration returns a page with an empty
  continuation token and the items of the page have been processed, the loop returns
  success in the world the items left, for any fuel left: the run has made one listing
  call more than before the iteration and makes no other. When the iteration is the
  first of a run, the run returns success after the summary line.
\<close>

theorem empty_token_ends_run:
  assumes page: "fetchPage env opts req w = (Inr page, w1)"
    and token: "NextPageToken page = []"
    and items: "processItems env opts (MediaItems page) w1 = (Ok hasMore, w2)"
  shows "pageLoop (Suc fuel) env opts req w = (Returned None, w2)
         \<and> searches w2 = searches w + 1
         \<and> (req = first_request opts \<and> stats w = zero_stats \<longrightarrow>
              DownloadAll (Suc fuel) env opts w
                = (Returned None,
                   log_Printf (LogSummary (total_cnt (stats w2)) (downloaded (stats w2))
                      (errors (stats w2)) (totalsize (stats w2))) w2))"
proof -
  have a: "pageLoop (Suc fuel) env opts req w = (Returned None, w2)"
    using page token items by (simp add: Let_def)
  have b: "searches w2 = searches w + 1"
    using fetchPage_searches [OF page] quiet_ext_searches [OF processItems_quiet [OF items]]
    by simp
  have c: "DownloadAll (Suc fuel) env opts w
                = (Returned None,
                   log_Printf (LogSummary (total_cnt (stats w2)) (downloaded (stats w2))
                      (errors (stats w2)) (totalsize (stats w2))) w2)"
    if "req = first_request opts \<and> stats w = zero_stats"
  proof -
    from that have e: "w\<lparr>stats := zero_stats\<rparr> = w" by (cases w) simp
    have "pageLoop (Suc fuel) env opts (first_request opts) (w\<lparr>stats := zero_stats\<rparr>)
        = (Returned None, w2)"
      unfolding e using that a by (simp del: pageLoop.simps)
    then show ?thesis by (simp add: DownloadAll_def Let_def del: pageLoop.simps)
  qed
  from a b c show ?thesis by blast
qed

theorem empty_token_ends_run_witness:
  "NextPageToken (ex_page []) = []
   \<and> fst (DownloadAll (Suc 0) ex_env (ex_opts\<lparr>MaxItems := 5\<rparr>) ex_world) = Returned None
   \<and> searches (snd (pageLoop (Suc 0) ex_env (ex_opts\<lparr>MaxItems := 5\<rparr>)
        (first_request (ex_opts\<lparr>MaxItems := 5\<rparr>)) ex_world)) = 1"
proof -
  let ?o = "ex_opts\<lparr>MaxItems := 5\<rparr>"
  define w1 where "w1 = snd (fetchPage ex_env ?o (first_request ?o) ex_world)"
  define w2 where "w2 = snd (processItems ex_env ?o (MediaItems (ex_page [])) w1)"
  have page: "fetchPage ex_env ?o (first_request ?o) ex_world = (Inr (ex_page []), w1)"
    by (simp add: w1_def fetchPage_def call_defs ex_defs)
  have token: "NextPageToken (ex_page []) = []"
    by (simp add: ex_defs)
  have items: "processItems ex_env ?o (MediaItems (ex_page [])) w1 = (Ok True, w2)"
    by (simp add: w2_def w1_def eval_defs call_defs ex_defs)
  have s0: "searches ex_world = 0"
    by (simp add: searches_def ex_defs)
  have z: "first_request ?o = first_request ?o \<and> stats ex_world = zero_stats"
    by (simp add: ex_defs)
  note t = empty_token_ends_run [OF page token items, of 0]
  from t z have "DownloadAll (Suc 0) ex_env ?o ex_world
      = (Returned None,
         log_Printf (LogSummary (total_cnt (stats w2)) (downloaded (stats w2))
            (errors (stats w2)) (totalsize (stats w2))) w2)"
    by blast
  then have "fst (DownloadAll (Suc 0) ex_env ?o ex_world) = Returned None"
    by simp
  moreover from t have "pageLoop (Suc 0) ex_env ?o (first_request ?o) ex_world
      = (Returned None, w2) \<and> searches w2 = searches ex_world + 1"
    by blast
  with s0 have "searches (snd (pageLoop (Suc 0) ex_env ?o (first_request ?o) ex_world)) = 1"
    by simp
  ultimately show ?thesis using token by blast
qed

text \<open>
  Claim C2. With \<open>MaxItems = N\<close> and a first page of more than \<open>N\<close> items, let \<open>w2\<close> be
  the world after the first \<open>N\<close> items have been processed. The run returns success in
  \<open>w2\<close> with \<open>total\<close> set to \<open>N + 1\<close> and the summary line added: \<open>downloaded\<close>,
  \<open>errors\<close> and the files are those of \<open>w2\<close>, and the run has made one listing call,
  whatever the continuation token of the page.
\<close>

theorem cap_boundary:
  assumes cap: "MaxItems opts = int N"
    and page: "fetchPage env opts (first_request opts) (w\<lparr>stats := zero_stats\<rparr>) = (Inr page, w1)"
    and more: "N < length (MediaItems page)"
    and first: "processItems env opts (take N (MediaItems page)) w1 = (Ok hasMore, w2)"
  shows "DownloadAll (Suc fuel) env opts w
           = (Returned None,
              log_Printf (LogSummary (int N + 1) (downloaded (stats w2)) (errors (stats w2))
                 (totalsize (stats w2)))
                (w2\<lparr>stats := (stats w2)\<lparr>total_cnt := int N + 1\<rparr>\<rparr>))
         \<and> total_cnt (stats w2) = int N
         \<and> total_cnt (stats (snd (DownloadAll (Suc fuel) env opts w))) = int N + 1
         \<and> downloaded (stats (snd (DownloadAll (Suc fuel) env opts w))) = downloaded (stats w2)
         \<and> errors (stats (snd (DownloadAll (Suc fuel) env opts w))) = errors (stats w2)
         \<and> files (snd (DownloadAll (Suc fuel) env opts w)) = files w2
         \<and> searches (snd (DownloadAll (Suc fuel) env opts w)) = searches w + 1"
proof -
  let ?w0 = "w\<lparr>stats := zero_stats\<rparr>"
  let ?w3 = "w2\<lparr>stats := (stats w2)\<lparr>total_cnt := int N + 1\<rparr>\<rparr>"
  from fetchPage_frame [OF page] have z: "total_cnt (stats w1) = 0"
    by (simp add: zero_stats_def)
  have "total_cnt (stats w1) + int (length (take N (MediaItems page))) \<le> MaxItems opts"
    using z cap more by simp
  from processItems_count [OF first this] z more
  have hm: "hasMore" and t2: "total_cnt (stats w2) = int N"
    by simp_all
  obtain m ms where rest: "drop N (MediaItems page) = m # ms"
    using more by (cases "drop N (MediaItems page)") simp_all
  have stop: "processItems env opts (m # ms) w2 = (Ok False, ?w3)"
    using t2 cap by (simp add: Let_def)
  have "processItems env opts (take N (MediaItems page) @ drop N (MediaItems page)) w1
          = processItems env opts (drop N (MediaItems page)) w2"
    using first hm by (intro processItems_append) simp
  then have "processItems env opts (MediaItems page) w1
          = processItems env opts (m # ms) w2"
    by (metis append_take_drop_id rest)
  with stop have all: "processItems env opts (MediaItems page) w1 = (Ok False, ?w3)"
    by (simp del: processItems.simps)
  have loop: "pageLoop (Suc fuel) env opts (first_request opts) ?w0 = (Returned None, ?w3)"
    using page all by (simp add: Let_def del: processItems.simps)
  have run: "DownloadAll (Suc fuel) env opts w
           = (Returned None,
              log_Printf (LogSummary (int N + 1) (downloaded (stats w2)) (errors (stats w2))
                 (totalsize (stats w2))) ?w3)"
    using loop by (simp add: DownloadAll_def Let_def del: pageLoop.simps)
  have "searches w1 = searches ?w0 + 1"
    by (rule fetchPage_searches [OF page])
  moreover have "searches w2 = searches w1"
    by (rule quiet_ext_searches [OF processItems_quiet [OF first]])
  ultimately have s: "searches w2 = searches w + 1"
    by (simp add: searches_def)
  show ?thesis
    unfolding run using t2 s by (simp add: log_Printf_def emit_def searches_def)
qed

theorem cap_boundary_witness:
  "MaxItems ex_opts = int 1 \<and> 1 < length (MediaItems (ex_page ''p2''))
   \<and> fst (DownloadAll (Suc 0) ex_env_two_pages ex_opts ex_world) = Returned None
   \<and> total_cnt (stats (snd (DownloadAll (Suc 0) ex_env_two_pages ex_opts ex_world))) = 2
   \<and> downloaded (stats (snd (DownloadAll (Suc 0) ex_env_two_pages ex_opts ex_world))) = 1
   \<and> errors (stats (snd (DownloadAll (Suc 0) ex_env_two_pages ex_opts ex_world))) = 0
   \<and> searches (snd (DownloadAll (Suc 0) ex_env_two_pages ex_opts ex_world)) = 1"
proof -
  define w1 where
    "w1 = snd (fetchPage ex_env_two_pages ex_opts (first_request ex_opts)
                 (ex_world\<lparr>stats := zero_stats\<rparr>))"
  define w2 where
    "w2 = snd (processItems ex_env_two_pages ex_opts (take 1 (MediaItems (ex_page ''p2''))) w1)"
  have cap: "MaxItems ex_opts = int 1"
    by (simp add: ex_defs)
  have page: "fetchPage ex_env_two_pages ex_opts (first_request ex_opts)
                (ex_world\<lparr>stats := zero_stats\<rparr>) = (Inr (ex_page ''p2''), w1)"
    by (simp add: w1_def fetchPage_def call_defs ex_defs)
  have more: "1 < length (MediaItems (ex_page ''p2''))"
    by (simp add: ex_defs)
  have first: "processItems ex_env_two_pages ex_opts (take 1 (MediaItems (ex_page ''p2''))) w1
      = (Ok True, w2)"
    by (simp add: w2_def w1_def eval_defs call_defs ex_defs)
  have s2: "downloaded (stats w2) = 1 \<and> errors (stats w2) = 0"
    by (simp add: w2_def w1_def eval_defs call_defs ex_defs)
  have s0: "searches ex_world = 0"
    by (simp add: searches_def ex_defs)
  note t = cap_boundary [OF cap page more first, of 0]
  from t [THEN conjunct1]
  have r: "fst (DownloadAll (Suc 0) ex_env_two_pages ex_opts ex_world) = Returned None"
    by simp
  from t [THEN conjunct2, THEN conjunct2, THEN conjunct1]
  have n: "total_cnt (stats (snd (DownloadAll (Suc 0) ex_env_two_pages ex_opts ex_world))) = 2"
    by simp
  from t [THEN conjunct2, THEN conjunct2, THEN conjunct2, THEN conjunct1] s2
  have d: "downloaded (stats (snd (DownloadAll (Suc 0) ex_env_two_pages ex_opts ex_world))) = 1"
    by simp
  from t [THEN conjunct2, THEN conjunct2, THEN conjunct2, THEN conjunct2, THEN conjunct1] s2
  have e: "errors (stats (snd (DownloadAll (Suc 0) ex_env_two_pages ex_opts ex_world))) = 0"
    by simp
  from t [THEN conjunct2, THEN conjunct2, THEN conjunct2, THEN conjunct2, THEN conjunct2,
      THEN conjunct2] s0
  have s: "searches (snd (DownloadAll (Suc 0) ex_env_two_pages ex_opts ex_world)) = 1"
    by simp
  from cap more r n d e s show ?thesis by blast
qed

text \<open>
  Claim C3. Below the cap, when \<open>downloadItem\<close> returns an error for an item, the loop
  over the page logs the failure, adds one to \<open>errors\<close> and goes on with the items that
  follow. When the listing call fails, the loop over the pages returns its error at
  once, with the counters and the files as they were before the call, and
  \<open>DownloadAll\<close> returns that error and that world.
\<close>

theorem failures_item_and_listing:
  "(\<forall>m ms err w1.
       total_cnt (stats w) < MaxItems opts
       \<and> downloadItem env opts m (w\<lparr>stats := (stats w)\<lparr>total_cnt := total_cnt (stats w) + 1\<rparr>\<rparr>)
           = (Ok (Some err), w1)
       \<longrightarrow> processItems env opts (m # ms) w
             = processItems env opts ms
                 (w1\<lparr>trace := trace w1 @ [EvLog (LogFailed (Id_item m) err)],
                     stats := (stats w1)\<lparr>errors := errors (stats w) + 1\<rparr>\<rparr>))
   \<and> (\<forall>fuel req err w1.
         fetchPage env opts req w = (Inl err, w1)
         \<longrightarrow> pageLoop (Suc fuel) env opts req w = (Returned (Some err), w1)
             \<and> stats w1 = stats w \<and> files w1 = files w)
   \<and> (\<forall>fuel err w'.
         pageLoop fuel env opts (first_request opts) (w\<lparr>stats := zero_stats\<rparr>)
           = (Returned (Some err), w')
         \<longrightarrow> DownloadAll fuel env opts w = (Returned (Some err), w'))"
proof (intro conjI allI impI)
  fix m ms err w1
  let ?w0 = "w\<lparr>stats := (stats w)\<lparr>total_cnt := total_cnt (stats w) + 1\<rparr>\<rparr>"
  assume a: "total_cnt (stats w) < MaxItems opts
       \<and> downloadItem env opts m ?w0 = (Ok (Some err), w1)"
  then have "errors (stats w1) = errors (stats w)"
    using downloadItem_step [of env opts m ?w0] by (simp add: item_step_def)
  with a show "processItems env opts (m # ms) w
             = processItems env opts ms
                 (w1\<lparr>trace := trace w1 @ [EvLog (LogFailed (Id_item m) err)],
                     stats := (stats w1)\<lparr>errors := errors (stats w) + 1\<rparr>\<rparr>)"
    by (simp add: Let_def log_Printf_def emit_def)
next
  fix fuel req err w1
  assume "fetchPage env opts req w = (Inl err, w1)"
  then show "pageLoop (Suc fuel) env opts req w = (Returned (Some err), w1)"
    by simp
next
  fix fuel req err w1
  assume "fetchPage env opts req w = (Inl err, w1)"
  from fetchPage_frame [OF this] show "stats w1 = stats w" by simp
next
  fix fuel req err w1
  assume "fetchPage env opts req w = (Inl err, w1)"
  from fetchPage_frame [OF this] show "files w1 = files w" by simp
next
  fix fuel err w'
  assume "pageLoop fuel env opts (first_request opts) (w\<lparr>stats := zero_stats\<rparr>)
           = (Returned (Some err), w')"
  then show "DownloadAll fuel env opts w = (Returned (Some err), w')"
    by (simp add: DownloadAll_def Let_def)
qed

theorem failures_item_and_listing_witness:
  "processItems ex_env (ex_opts\<lparr>MaxItems := 5\<rparr>) [ex_item_b, ex_item] ex_world
     = (Ok True,
        ex_world\<lparr>files := [''/backup/2019/March/5_yz012345.json'' \<mapsto> ''json:qrstuvwxyz012345'',
                     ''/backup/2019/March/5_ijklmnop.json'' \<mapsto> ''json:abcdefghijklmnop'',
                     ''/backup/2019/March/5_ijklmnop.jpg'' \<mapsto> ''hello''],
          stats := \<lparr>total_cnt = 2, errors = 1, totalsize = 5, downloaded = 1\<rparr>,
          trace := [EvStat ''/backup/2019/March/5_yz012345.json'',
            EvLog (LogCreating ''/backup/2019/March/5_yz012345.json''),
            EvMkdirAll ''/backup/2019/March'',
            EvWriteFile ''/backup/2019/March/5_yz012345.json'',
            EvGet ''http://x/b=dv'',
            EvLog (LogFailed ''qrstuvwxyz012345'' (ErrMsg ''refused'')),
            EvStat ''/backup/2019/March/5_ijklmnop.json'',
            EvLog (LogCreating ''/backup/2019/March/5_ijklmnop.json''),
            EvMkdirAll ''/backup/2019/March'',
            EvWriteFile ''/backup/2019/March/5_ijklmnop.json'',
            EvGet ''http://x/a=d'',
            EvStat ''/backup/2019/March/5_ijklmnop.jpg'',
            EvLog LogNotYetDownloaded,
            EvCreate ''/backup/2019/March/5_ijklmnop.jpg'',
            EvCopy ''/backup/2019/March/5_ijklmnop.jpg'',
            EvLog (LogDownloaded ''/backup/2019/March/5_ijklmnop.jpg'' 5),
            EvBodyClose]\<rparr>)
   \<and> fst (DownloadAll (Suc (Suc 0)) ex_env_two_pages (ex_opts\<lparr>MaxItems := 5\<rparr>) ex_world)
       = Returned (Some (ErrMsg ''backend''))
   \<and> stats (snd (DownloadAll (Suc (Suc 0)) ex_env_two_pages (ex_opts\<lparr>MaxItems := 5\<rparr>) ex_world))
       = \<lparr>total_cnt = 2, errors = 1, totalsize = 5, downloaded = 1\<rparr>
   \<and> files (snd (DownloadAll (Suc (Suc 0)) ex_env_two_pages (ex_opts\<lparr>MaxItems := 5\<rparr>) ex_world))
       = [''/backup/2019/March/5_ijklmnop.json'' \<mapsto> ''json:abcdefghijklmnop'',
          ''/backup/2019/March/5_ijklmnop.jpg'' \<mapsto> ''hello'',
          ''/backup/2019/March/5_yz012345.json'' \<mapsto> ''json:qrstuvwxyz012345'']"
proof -
  let ?o = "ex_opts\<lparr>MaxItems := 5\<rparr>"
  let ?e = "ex_env_two_pages"
  let ?w0 = "ex_world\<lparr>stats := (stats ex_world)\<lparr>total_cnt := total_cnt (stats ex_world) + 1\<rparr>\<rparr>"
  define w1 where "w1 = snd (downloadItem ex_env ?o ex_item_b ?w0)"
  have under: "total_cnt (stats ex_world) < MaxItems ?o"
    by (simp add: ex_defs)
  have fails: "downloadItem ex_env ?o ex_item_b ?w0 = (Ok (Some (ErrMsg ''refused'')), w1)"
    by (simp add: w1_def eval_defs call_defs ex_defs)
  note item = failures_item_and_listing [THEN conjunct1, rule_format, OF conjI, OF under fails]
  have a: "processItems ex_env ?o [ex_item_b, ex_item] ex_world
     = (Ok True,
        ex_world\<lparr>files := [''/backup/2019/March/5_yz012345.json'' \<mapsto> ''json:qrstuvwxyz012345'',
                     ''/backup/2019/March/5_ijklmnop.json'' \<mapsto> ''json:abcdefghijklmnop'',
                     ''/backup/2019/March/5_ijklmnop.jpg'' \<mapsto> ''hello''],
          stats := \<lparr>total_cnt = 2, errors = 1, totalsize = 5, downloaded = 1\<rparr>,
          trace := [EvStat ''/backup/2019/March/5_yz012345.json'',
            EvLog (LogCreating ''/backup/2019/March/5_yz012345.json''),
            EvMkdirAll ''/backup/2019/March'',
            EvWriteFile ''/backup/2019/March/5_yz012345.json'',
            EvGet ''http://x/b=dv'',
            EvLog (LogFailed ''qrstuvwxyz012345'' (ErrMsg ''refused'')),
            EvStat ''/backup/2019/March/5_ijklmnop.json'',
            EvLog (LogCreating ''/backup/2019/March/5_ijklmnop.json''),
            EvMkdirAll ''/backup/2019/March'',
            EvWriteFile ''/backup/2019/March/5_ijklmnop.json'',
            EvGet ''http://x/a=d'',
            EvStat ''/backup/2019/March/5_ijklmnop.jpg'',
            EvLog LogNotYetDownloaded,
            EvCreate ''/backup/2019/March/5_ijklmnop.jpg'',
            EvCopy ''/backup/2019/March/5_ijklmnop.jpg'',
            EvLog (LogDownloaded ''/backup/2019/March/5_ijklmnop.jpg'' 5),
            EvBodyClose]\<rparr>)"
    unfolding item [of "[ex_item]"]
    by (simp add: w1_def eval_defs call_defs ex_defs)
  define v where
    "v = snd (pageLoop (Suc (Suc 0)) ?e ?o (first_request ?o) (ex_world\<lparr>stats := zero_stats\<rparr>))"
  have pl: "pageLoop (Suc (Suc 0)) ?e ?o (first_request ?o) (ex_world\<lparr>stats := zero_stats\<rparr>)
      = (Returned (Some (ErrMsg ''backend'')), v)"
    by (simp add: v_def eval_defs call_defs ex_defs)
  have sv: "stats v = \<lparr>total_cnt = 2, errors = 1, totalsize = 5, downloaded = 1\<rparr>"
    by (simp add: v_def eval_defs call_defs ex_defs)
  have fv: "files v = [''/backup/2019/March/5_ijklmnop.json'' \<mapsto> ''json:abcdefghijklmnop'',
          ''/backup/2019/March/5_ijklmnop.jpg'' \<mapsto> ''hello'',
          ''/backup/2019/March/5_yz012345.json'' \<mapsto> ''json:qrstuvwxyz012345'']"
    by (simp add: v_def eval_defs call_defs ex_defs)
  have "DownloadAll (Suc (Suc 0)) ?e ?o ex_world = (Returned (Some (ErrMsg ''backend'')), v)"
    by (rule failures_item_and_listing [THEN conjunct2, THEN conjunct2, rule_format, OF pl])
  with a sv fv show ?thesis by simp
qed

text \<open>
  Claim C7, as stated, fails: a run whose first listing call fails ends with that
  call, and no summary line is logged.
\<close>

theorem DownloadAll_throttled_counterexample:
  "DownloadAll (Suc 0) ex_env_down ex_opts ex_world
     = (Returned (Some (ErrMsg ''backend'')),
        ex_world\<lparr>trace := [EvLog (LogProgress 0 0 0 0 5000000000), EvSleep 5000000000,
                            EvSearch \<lparr>PageSize_req = 50, AlbumId = [], PageToken = []\<rparr>]\<rparr>)"
  by (simp add: eval_defs call_defs ex_defs)

text \<open>
  Claim C7, amended. At every point where a run stands between two iterations, and at
  its end, the events it has added to the trace are in order: each listing call comes
  right after a sleep of the configured duration, each such sleep right after a
  progress line, and no sleep or progress line occurs elsewhere. A run that makes an
  iteration begins with a progress line, the sleep and the first listing call. A run
  that returns success logs one summary line, that of its counters, as its last
  event. Any other run, one that returns an error, panics or is still going, logs no
  summary line; a run that returns an error ends with the listing call that failed.
\<close>

theorem DownloadAll_throttled:
  "take (length (trace w)) (trace (snd (DownloadAll fuel env opts w))) = trace w
   \<and> (if fst (DownloadAll fuel env opts w) = Returned None
       then run_ended (sleepTime opts)
              (drop (length (trace w)) (trace (snd (DownloadAll fuel env opts w))))
       else throttled (sleepTime opts)
              (drop (length (trace w)) (trace (snd (DownloadAll fuel env opts w)))))
   \<and> filter is_summary (drop (length (trace w)) (trace (snd (DownloadAll fuel env opts w))))
       = (if fst (DownloadAll fuel env opts w) = Returned None
          then [EvLog (LogSummary (total_cnt (stats (snd (DownloadAll fuel env opts w))))
                  (downloaded (stats (snd (DownloadAll fuel env opts w))))
                  (errors (stats (snd (DownloadAll fuel env opts w))))
                  (totalsize (stats (snd (DownloadAll fuel env opts w)))))]
          else [])
   \<and> (0 < fuel \<longrightarrow>
        take 3 (drop (length (trace w)) (trace (snd (DownloadAll fuel env opts w))))
          = [EvLog (LogProgress 0 0 0 0 (sleepTime opts)), EvSleep (sleepTime opts),
             EvSearch (first_request opts)])
   \<and> (fst (DownloadAll fuel env opts w) = Returned None \<longrightarrow>
        last (trace (snd (DownloadAll fuel env opts w)))
          = EvLog (LogSummary (total_cnt (stats (snd (DownloadAll fuel env opts w))))
              (downloaded (stats (snd (DownloadAll fuel env opts w))))
              (errors (stats (snd (DownloadAll fuel env opts w))))
              (totalsize (stats (snd (DownloadAll fuel env opts w))))))
   \<and> (\<forall>err. fst (DownloadAll fuel env opts w) = Returned (Some err) \<longrightarrow>
        is_search (last (trace (snd (DownloadAll fuel env opts w)))))"
proof -
  let ?w0 = "w\<lparr>stats := zero_stats\<rparr>"
  let ?d = "sleepTime opts"
  obtain r w1 where loop: "pageLoop fuel env opts (first_request opts) ?w0 = (r, w1)"
    by (cases "pageLoop fuel env opts (first_request opts) ?w0")
  from pageLoop_throttled [OF loop] obtain es where
    es: "trace w1 = trace w @ es" "throttled ?d es"
    by auto
  let ?sum = "EvLog (LogSummary (total_cnt (stats w1)) (downloaded (stats w1))
                 (errors (stats w1)) (totalsize (stats w1)))"
  have run: "DownloadAll fuel env opts w
      = (if r = Returned None then (Returned None, log_Printf (LogSummary (total_cnt (stats w1))
            (downloaded (stats w1)) (errors (stats w1)) (totalsize (stats w1))) w1)
         else (r, w1))"
    using loop by (auto simp: DownloadAll_def Let_def split: run.splits option.splits)
  have res: "fst (DownloadAll fuel env opts w) = r"
    using run by simp
  have st: "stats (snd (DownloadAll fuel env opts w)) = stats w1"
    using run by (simp add: log_Printf_def emit_def)
  have tr: "trace (snd (DownloadAll fuel env opts w))
      = trace w @ (if r = Returned None then es @ [?sum] else es)"
    using run es by (simp add: log_Printf_def emit_def)
  have dr: "drop (length (trace w)) (trace (snd (DownloadAll fuel env opts w)))
      = (if r = Returned None then es @ [?sum] else es)"
    using tr by simp
  have ended: "run_ended ?d (es @ [?sum])"
    using es(2) by (simp add: run_ended_def throttled_def phases_append)
  have nos: "filter is_summary es = []"
    using es(2) by (rule throttled_no_summary)
  have first: "\<exists>es'. es = [EvLog (LogProgress 0 0 0 0 ?d), EvSleep ?d,
             EvSearch (first_request opts)] @ es'" if "0 < fuel"
  proof -
    from that obtain k where k: "fuel = Suc k" by (cases fuel) simp_all
    obtain p w2 where fp: "fetchPage env opts (first_request opts) ?w0 = (p, w2)"
      by (cases "fetchPage env opts (first_request opts) ?w0")
    have "quiet_ext w2 w1 \<or> (\<exists>es'. trace w1 = trace w2 @ es')"
    proof (cases p)
      case (Inl err)
      with loop k fp show ?thesis by (auto simp: quiet_ext_refl)
    next
      case (Inr page)
      obtain b w3 where pi: "processItems env opts (MediaItems page) w2 = (b, w3)"
        by (cases "processItems env opts (MediaItems page) w2")
      from processItems_quiet [OF pi] obtain e3 where e3: "trace w3 = trace w2 @ e3"
        by (auto simp: quiet_ext_iff)
      show ?thesis
      proof (cases "\<exists>req. pageLoop k env opts req w3 = (r, w1)")
        case True
        then obtain req where "pageLoop k env opts req w3 = (r, w1)" by blast
        from pageLoop_throttled [OF this] e3 show ?thesis by auto
      next
        case False
        with loop k fp Inr pi have "w1 = w3"
          by (auto simp: Let_def split: outcome.splits if_splits)
        with e3 show ?thesis by blast
      qed
    qed
    then obtain es' where "trace w1 = trace w2 @ es'"
      by (auto simp: quiet_ext_iff)
    with fetchPage_frame [OF fp] es(1) show ?thesis
      by (auto simp: zero_stats_def)
  qed
  have c1: "take (length (trace w)) (trace (snd (DownloadAll fuel env opts w))) = trace w"
    using tr by simp
  have c2: "if fst (DownloadAll fuel env opts w) = Returned None
       then run_ended ?d (drop (length (trace w)) (trace (snd (DownloadAll fuel env opts w))))
       else throttled ?d (drop (length (trace w)) (trace (snd (DownloadAll fuel env opts w))))"
    unfolding res dr using ended es(2) by simp
  have c3: "filter is_summary (drop (length (trace w)) (trace (snd (DownloadAll fuel env opts w))))
       = (if fst (DownloadAll fuel env opts w) = Returned None
          then [EvLog (LogSummary (total_cnt (stats (snd (DownloadAll fuel env opts w))))
                  (downloaded (stats (snd (DownloadAll fuel env opts w))))
                  (errors (stats (snd (DownloadAll fuel env opts w))))
                  (totalsize (stats (snd (DownloadAll fuel env opts w)))))]
          else [])"
    unfolding res dr st using nos by simp
  have c4: "0 < fuel \<longrightarrow>
        take 3 (drop (length (trace w)) (trace (snd (DownloadAll fuel env opts w))))
          = [EvLog (LogProgress 0 0 0 0 ?d), EvSleep ?d, EvSearch (first_request opts)]"
    unfolding dr using first by auto
  have c5: "fst (DownloadAll fuel env opts w) = Returned None \<longrightarrow>
        last (trace (snd (DownloadAll fuel env opts w)))
          = EvLog (LogSummary (total_cnt (stats (snd (DownloadAll fuel env opts w))))
              (downloaded (stats (snd (DownloadAll fuel env opts w))))
              (errors (stats (snd (DownloadAll fuel env opts w))))
              (totalsize (stats (snd (DownloadAll fuel env opts w)))))"
    unfolding res st tr by simp
  have c6: "\<forall>err. fst (DownloadAll fuel env opts w) = Returned (Some err) \<longrightarrow>
        is_search (last (trace (snd (DownloadAll fuel env opts w))))"
    using run loop pageLoop_last by (auto split: if_splits)
  from c1 c2 c3 c4 c5 c6 show ?thesis by blast
qed

theorem DownloadAll_throttled_witness:
  "0 < Suc 0
   \<and> fst (DownloadAll (Suc 0) ex_env (ex_opts\<lparr>MaxItems := 5\<rparr>) ex_world) = Returned None
   \<and> run_ended 5000000000
        (trace (snd (DownloadAll (Suc 0) ex_env (ex_opts\<lparr>MaxItems := 5\<rparr>) ex_world)))
   \<and> filter is_summary
        (trace (snd (DownloadAll (Suc 0) ex_env (ex_opts\<lparr>MaxItems := 5\<rparr>) ex_world)))
       = [EvLog (LogSummary 2 1 1 5)]
   \<and> take 3 (trace (snd (DownloadAll (Suc 0) ex_env (ex_opts\<lparr>MaxItems := 5\<rparr>) ex_world)))
       = [EvLog (LogProgress 0 0 0 0 5000000000), EvSleep 5000000000,
          EvSearch \<lparr>PageSize_req = 50, AlbumId = [], PageToken = []\<rparr>]
   \<and> last (trace (snd (DownloadAll (Suc 0) ex_env (ex_opts\<lparr>MaxItems := 5\<rparr>) ex_world)))
       = EvLog (LogSummary 2 1 1 5)
   \<and> fst (DownloadAll (Suc 0) ex_env_down ex_opts ex_world) = Returned (Some (ErrMsg ''backend''))
   \<and> throttled 5000000000 (trace (snd (DownloadAll (Suc 0) ex_env_down ex_opts ex_world)))
   \<and> filter is_summary (trace (snd (DownloadAll (Suc 0) ex_env_down ex_opts ex_world))) = []
   \<and> is_search (last (trace (snd (DownloadAll (Suc 0) ex_env_down ex_opts ex_world))))"
proof -
  let ?o = "ex_opts\<lparr>MaxItems := 5\<rparr>"
  let ?r = "DownloadAll (Suc 0) ex_env ?o ex_world"
  let ?a = "DownloadAll (Suc 0) ex_env_down ex_opts ex_world"
  have ok: "fst ?r = Returned None"
    by (simp add: eval_defs call_defs ex_defs)
  have st: "stats (snd ?r) = \<lparr>total_cnt = 2, errors = 1, totalsize = 5, downloaded = 1\<rparr>"
    by (simp add: eval_defs call_defs ex_defs)
  have d: "sleepTime ?o = 5000000000" "first_request ?o
      = \<lparr>PageSize_req = 50, AlbumId = [], PageToken = []\<rparr>" "trace ex_world = []"
      "sleepTime ex_opts = 5000000000"
    by (simp_all add: sleepTime_def ex_defs)
  have ab: "fst ?a = Returned (Some (ErrMsg ''backend''))"
    by (simp add: eval_defs call_defs ex_defs)
  note t = DownloadAll_throttled [of ex_world "Suc 0" ex_env ?o]
  note u = DownloadAll_throttled [of ex_world "Suc 0" ex_env_down ex_opts]
  from t [THEN conjunct2, THEN conjunct1] ok d
  have t2: "run_ended 5000000000 (trace (snd ?r))"
    by simp
  from t [THEN conjunct2, THEN conjunct2, THEN conjunct1] ok st d
  have t3: "filter is_summary (trace (snd ?r)) = [EvLog (LogSummary 2 1 1 5)]"
    by simp
  from t [THEN conjunct2, THEN conjunct2, THEN conjunct2, THEN conjunct1] d
  have t4: "take 3 (trace (snd ?r))
       = [EvLog (LogProgress 0 0 0 0 5000000000), EvSleep 5000000000,
          EvSearch \<lparr>PageSize_req = 50, AlbumId = [], PageToken = []\<rparr>]"
    by simp
  from t [THEN conjunct2, THEN conjunct2, THEN conjunct2, THEN conjunct2, THEN conjunct1]
    ok st
  have t5: "last (trace (snd ?r)) = EvLog (LogSummary 2 1 1 5)"
    by simp
  from u [THEN conjunct2, THEN conjunct1] ab d
  have u2: "throttled 5000000000 (trace (snd ?a))"
    by simp
  from u [THEN conjunct2, THEN conjunct2, THEN conjunct1] ab d
  have u3: "filter is_summary (trace (snd ?a)) = []"
    by simp
  from u [THEN conjunct2, THEN conjunct2, THEN conjunct2, THEN conjunct2, THEN conjunct2] ab
  have u6: "is_search (last (trace (snd ?a)))"
    by blast
  from ok t2 t3 t4 t5 ab u2 u3 u6 show ?thesis by simp
qed

end
